theory Spec2Isabelle
  imports Complex_Main
begin

section \<open>Numbers\<close>

text \<open>
  The simulation computes with JavaScript numbers. They are modelled by the real numbers:
  arithmetic is exact, and \<open>Math.sqrt\<close>, \<open>Math.sin\<close>, \<open>Math.cos\<close> and \<open>Math.atan2\<close> are
  the real functions. Rounding, overflow and the sign of zero are outside the model.

  A quotient whose divisor can be zero is written out at the place where the source divides:
  \<open>0 / 0\<close> is \<open>NaN\<close>, and a value that is \<open>NaN\<close> is the constructor \<open>NaN\<close> of the type
  below, never a real number.
\<close>

datatype 'a js = Fin 'a | NaN

text \<open>\<open>Math.atan2(y, x)\<close>, with \<open>Math.atan2(0, 0) = 0\<close>.\<close>

definition atan2 :: "real \<Rightarrow> real \<Rightarrow> real" where
  "atan2 b a =
     (if 0 < a then arctan (b / a)
      else if a < 0 then (if 0 \<le> b then arctan (b / a) + pi else arctan (b / a) - pi)
      else if 0 < b then pi / 2
      else if b < 0 then - (pi / 2)
      else 0)"

section \<open>Vector2D (utils.js)\<close>

text \<open>
  The class has the fields \<open>x\<close> and \<open>y\<close>; they are called \<open>vx\<close> and \<open>vy\<close> here, so that
  \<open>x\<close> and \<open>y\<close> stay free for variables.
\<close>

record Vector2D =
  vx :: real
  vy :: real

definition Zero :: Vector2D where
  "Zero = \<lparr>vx = 0, vy = 0\<rparr>"

definition add :: "Vector2D \<Rightarrow> Vector2D \<Rightarrow> Vector2D" where
  "add vec1 vec2 = \<lparr>vx = vx vec1 + vx vec2, vy = vy vec1 + vy vec2\<rparr>"

definition sub :: "Vector2D \<Rightarrow> Vector2D \<Rightarrow> Vector2D" where
  "sub vec1 vec2 = \<lparr>vx = vx vec1 - vx vec2, vy = vy vec1 - vy vec2\<rparr>"

definition scale :: "Vector2D \<Rightarrow> real \<Rightarrow> Vector2D" where
  "scale vec1 number = \<lparr>vx = vx vec1 * number, vy = vy vec1 * number\<rparr>"

definition addPolar :: "Vector2D \<Rightarrow> real \<Rightarrow> real \<Rightarrow> Vector2D" where
  "addPolar vec radius ang = \<lparr>vx = vx vec + radius * cos ang, vy = vy vec + radius * sin ang\<rparr>"

definition magnitude :: "Vector2D \<Rightarrow> real" where
  "magnitude v = sqrt (vx v * vx v + vy v * vy v)"

definition angle :: "Vector2D \<Rightarrow> real" where
  "angle v = atan2 (vy v) (vx v)"

definition distance :: "Vector2D \<Rightarrow> Vector2D \<Rightarrow> real" where
  "distance v vec =
     sqrt ((vx v - vx vec) * (vx v - vx vec) + (vy v - vy vec) * (vy v - vy vec))"

text \<open>
  The setter of \<open>magnitude\<close>. A vector of length zero stays the zero vector, whatever the new
  magnitude is.
\<close>

definition setMagnitude :: "Vector2D \<Rightarrow> real \<Rightarrow> Vector2D" where
  "setMagnitude v newMagnitude =
     (let curMag = sqrt (vx v * vx v + vy v * vy v)
      in if curMag = 0 then \<lparr>vx = 0, vy = 0\<rparr>
         else \<lparr>vx = (vx v / curMag) * newMagnitude, vy = (vy v / curMag) * newMagnitude\<rparr>)"

text \<open>\<open>div(number)\<close>, for a divisor that is not zero; the callers' zero divisors are written out there.\<close>

definition Vector2D_div :: "Vector2D \<Rightarrow> real \<Rightarrow> Vector2D" where
  "Vector2D_div v number = \<lparr>vx = vx v / number, vy = vy v / number\<rparr>"

text \<open>\<open>clampMag(min, max)\<close>; without \<open>max\<close> the bounds are \<open>-min\<close> and \<open>min\<close>.\<close>

definition clampMag :: "Vector2D \<Rightarrow> real \<Rightarrow> real option \<Rightarrow> Vector2D" where
  "clampMag v mn mx =
     (let (lo, hi) = (case mx of None \<Rightarrow> (- mn, mn) | Some m \<Rightarrow> (mn, m));
          ang = angle v;
          mag = magnitude v;
          clampedMagnitude = max lo (min hi mag)
      in \<lparr>vx = clampedMagnitude * cos ang, vy = clampedMagnitude * sin ang\<rparr>)"

definition Vector2D_unit :: "Vector2D \<Rightarrow> Vector2D" where
  "Vector2D_unit v =
     (let mag = magnitude v
      in if mag = 0 then \<lparr>vx = 0, vy = 0\<rparr> else \<lparr>vx = vx v / mag, vy = vy v / mag\<rparr>)"

text \<open>
  Where a vector can have become \<open>NaN\<close>, it has the type \<open>Vector2D js\<close>: both coordinates are
  numbers, or both are \<open>NaN\<close>. Arithmetic hands \<open>NaN\<close> on, and a comparison with \<open>NaN\<close> is false.
\<close>

definition lift2 :: "('a \<Rightarrow> 'b \<Rightarrow> 'c) \<Rightarrow> 'a js \<Rightarrow> 'b js \<Rightarrow> 'c js" where
  "lift2 f a b =
     (case a of NaN \<Rightarrow> NaN | Fin u \<Rightarrow> (case b of NaN \<Rightarrow> NaN | Fin v \<Rightarrow> Fin (f u v)))"

definition js_gt :: "real js \<Rightarrow> real \<Rightarrow> bool" where
  "js_gt a b = (case a of NaN \<Rightarrow> False | Fin u \<Rightarrow> u > b)"

definition js_lt :: "real js \<Rightarrow> real \<Rightarrow> bool" where
  "js_lt a b = (case a of NaN \<Rightarrow> False | Fin u \<Rightarrow> u < b)"

definition js_le :: "real js \<Rightarrow> real \<Rightarrow> bool" where
  "js_le a b = (case a of NaN \<Rightarrow> False | Fin u \<Rightarrow> u \<le> b)"

section \<open>getIntercectionPoint (utils.js)\<close>

text \<open>
  Without an intersection the result is the empty array. Otherwise the source divides by the
  distance \<open>d\<close> of the centres. For \<open>d = 0\<close> the guard lets only \<open>r1 = r2\<close> through, so
  \<open>a = 0 / 0\<close> is \<open>NaN\<close>, and with it all four coordinates of the two vectors returned.
  For \<open>d > 0\<close> the argument of the square root \<open>h\<close> is not negative (lemma \<open>h_arg_nonneg\<close>).
\<close>

definition getIntercectionPoint :: "Vector2D \<Rightarrow> Vector2D \<Rightarrow> real \<Rightarrow> real \<Rightarrow> Vector2D js list" where
  "getIntercectionPoint p1 p2 r1 r2 =
     (let x1 = vx p1; y1 = vy p1; x2 = vx p2; y2 = vy p2;
          d = sqrt ((x2 - x1) * (x2 - x1) + (y2 - y1) * (y2 - y1))
      in if d > r1 + r2 \<or> d < \<bar>r1 - r2\<bar> then []
         else if d = 0 then [NaN, NaN]
         else
           (let a = (r1 * r1 - r2 * r2 + d * d) / (2 * d);
                x3 = x1 + (a * (x2 - x1)) / d;
                y3 = y1 + (a * (y2 - y1)) / d;
                h = sqrt (r1 * r1 - a * a);
                x4_1 = x3 + (h * (y2 - y1)) / d;
                y4_1 = y3 - (h * (x2 - x1)) / d;
                x4_2 = x3 - (h * (y2 - y1)) / d;
                y4_2 = y3 + (h * (x2 - x1)) / d
            in [Fin \<lparr>vx = x4_1, vy = y4_1\<rparr>, Fin \<lparr>vx = x4_2, vy = y4_2\<rparr>]))"

section \<open>ChainLink (animals.js)\<close>

record ChainLink =
  radius :: real
  pos :: Vector2D
  directionAngle :: real

text \<open>
  The angle difference is brought back into \<open>(-\<pi>, \<pi>]\<close> by one step of \<open>2\<pi>\<close>:
  \<^verbatim>\<open>if (angleDiff > Math.PI) angleDiff -= 2 * Math.PI;
  else if (angleDiff <= -Math.PI) angleDiff += 2 * Math.PI;\<close>
\<close>

definition wrapAngle :: "real \<Rightarrow> real" where
  "wrapAngle angleDiff =
     (if angleDiff > pi then angleDiff - 2 * pi
      else if angleDiff \<le> - pi then angleDiff + 2 * pi
      else angleDiff)"

text \<open>
  \<open>ChainLink.update(distConstrainer, distance, angleConstrainer, maxAngle)\<close>; the first
  argument of the model is \<open>this\<close>.
\<close>

definition ChainLink_update ::
  "ChainLink \<Rightarrow> ChainLink \<Rightarrow> real \<Rightarrow> ChainLink \<Rightarrow> real \<Rightarrow> ChainLink" where
  "ChainLink_update this distConstrainer dst angleConstrainer maxAngle =
     (let baseVector = sub (pos angleConstrainer) (pos distConstrainer);
          anchorAngle = angle baseVector;
          vector = sub (pos this) (pos distConstrainer);
          currentAngle = angle vector;
          angleDiff = wrapAngle (currentAngle - anchorAngle);
          maxAngleRad = ((180 - maxAngle) * pi) / 180;
          newAngle =
            (if angleDiff < 0 then min angleDiff (- maxAngleRad) + anchorAngle
             else max angleDiff maxAngleRad + anchorAngle)
      in this\<lparr>directionAngle := currentAngle,
              pos := addPolar (pos distConstrainer) dst newAngle\<rparr>)"

section \<open>BodyBase (animals.js)\<close>

text \<open>
  Of the fields of \<open>BodyBase\<close> the model keeps those that \<open>update\<close> and
  \<open>getTotalCurvature\<close> read or write; \<open>body_scale\<close> is the field \<open>_scale\<close> behind the accessor
  \<open>scale\<close>. The fields that only the drawing code reads (head and tail points, eyes, style,
  graphics objects) are left out.
\<close>

record BodyBase =
  chainLinks :: "ChainLink list"
  spacing :: real
  maxAngle :: real
  totalCurvature :: "real js"
  body_scale :: real

text \<open>Reading a property of \<open>undefined\<close> throws a \<open>TypeError\<close>.\<close>

datatype error = TypeError

text \<open>\<open>new ChainLink(radius, pos)\<close>.\<close>

definition ChainLink_new :: "real \<Rightarrow> Vector2D \<Rightarrow> ChainLink" where
  "ChainLink_new r p = \<lparr>radius = r, pos = p, directionAngle = - pi / 2\<rparr>"

text \<open>
  The constructor of \<open>BodyBase\<close> with \<open>setCustomBodyShape\<close>, as far as the fields above go:
  a radius profile with fewer than two entries is padded, link \<open>index\<close> is placed
  \<open>spacing * index\<close> below the basis position, and the scale is stored as its absolute value.
\<close>

definition BodyBase_new :: "real list \<Rightarrow> real \<Rightarrow> real \<Rightarrow> Vector2D \<Rightarrow> real \<Rightarrow> BodyBase" where
  "BodyBase_new radiusesArray spc maxAng basisPosition scl =
     (let radiuses =
            (if length radiusesArray = 0 then [10, 10]
             else if length radiusesArray = 1 then [radiusesArray ! 0, radiusesArray ! 0]
             else radiusesArray)
      in \<lparr>chainLinks =
             map (\<lambda>(r, index). ChainLink_new r
                    \<lparr>vx = vx basisPosition, vy = vy basisPosition + spc * real index\<rparr>)
                 (zip radiuses [0 ..< length radiuses]),
           spacing = spc,
           maxAngle = maxAng,
           totalCurvature = Fin 0,
           body_scale = \<bar>scl\<bar>\<rparr>)"

text \<open>
  The loop of \<open>getTotalCurvature\<close> over \<open>i = 2, 3, ...\<close>: \<open>link1\<close> is link \<open>i - 1\<close>, the list
  holds the links from index \<open>i\<close> on, and \<open>curCurvature\<close> is the sum so far.
\<close>

fun curvatureLoop :: "real \<Rightarrow> ChainLink \<Rightarrow> ChainLink list \<Rightarrow> real" where
  "curvatureLoop curCurvature link1 [] = curCurvature"
| "curvatureLoop curCurvature link1 (link2 # links) =
     (let difference = (directionAngle link2 * 180) / pi - (directionAngle link1 * 180) / pi;
          difference = (if difference > 180 then difference - 360 else difference);
          difference = (if difference < - 180 then difference + 360 else difference)
      in curvatureLoop (curCurvature + difference) link2 links)"

text \<open>
  \<open>getTotalCurvature\<close>. The quotient \<open>curCurvature / maxCurvature\<close> is written out for a zero
  divisor: \<open>0 / 0\<close> is \<open>NaN\<close>, which \<open>Math.max\<close> and \<open>Math.min\<close> hand on, and a non-zero
  numerator over zero is an infinity, which they clamp to \<open>1\<close> or \<open>-1\<close>.
\<close>

definition getTotalCurvature :: "BodyBase \<Rightarrow> real js" where
  "getTotalCurvature b =
     (let maxCurvature = maxAngle b * (real (length (chainLinks b)) - 2);
          curCurvature =
            (case chainLinks b of
               headLink # link1 # links \<Rightarrow> curvatureLoop 0 link1 links
             | _ \<Rightarrow> 0)
      in if maxCurvature = 0
         then (if curCurvature = 0 then NaN else if 0 < curCurvature then Fin 1 else Fin (- 1))
         else Fin (min (max (curCurvature / maxCurvature) (- 1)) 1))"

text \<open>
  The loop of \<open>BodyBase.update\<close> over \<open>index = 2, 3, ...\<close>: \<open>prev2\<close> and \<open>prev1\<close> are the links
  \<open>index - 2\<close> and \<open>index - 1\<close>, already updated, and the list holds the links from \<open>index\<close> on.
\<close>

fun updateLinks :: "real \<Rightarrow> real \<Rightarrow> ChainLink \<Rightarrow> ChainLink \<Rightarrow> ChainLink list \<Rightarrow> ChainLink list" where
  "updateLinks dst maxAng prev2 prev1 [] = []"
| "updateLinks dst maxAng prev2 prev1 (link # links) =
     (let link' = ChainLink_update link prev1 dst prev2 maxAng
      in link' # updateLinks dst maxAng prev1 link' links)"

text \<open>
  \<open>BodyBase.update(pos)\<close>. With fewer than two links \<open>link2.pos\<close> reads a property of
  \<open>undefined\<close>. The head link stores the object \<open>pos\<close> itself; \<open>update\<close> never reads the old
  head position, so the sharing does not show in the result.
\<close>

definition BodyBase_update :: "Vector2D \<Rightarrow> BodyBase \<Rightarrow> error + BodyBase" where
  "BodyBase_update headPos b =
     (case chainLinks b of
        link1 # link2 # links \<Rightarrow>
          (let currentAngle = angle (sub (pos link2) headPos);
               link1' = link1\<lparr>pos := headPos, directionAngle := currentAngle\<rparr>;
               link2' = link2\<lparr>pos := addPolar (pos link1') (spacing b * body_scale b) currentAngle,
                             directionAngle := currentAngle\<rparr>;
               b' = b\<lparr>chainLinks :=
                        link1' # link2' #
                        updateLinks (spacing b * body_scale b) (maxAngle b) link1' link2' links\<rparr>
           in Inr (b'\<lparr>totalCurvature := getTotalCurvature b'\<rparr>))
      | _ \<Rightarrow> Inl TypeError)"

section \<open>Leg3Joint (animals.js)\<close>

text \<open>
  The leg refers to a link of the parent spine; the model passes that link, in its current
  state, to every function that reads it. \<open>leg_scale\<close> is the field \<open>_scale\<close>, \<open>lengthes\<close> the
  array of the two segment lengths, and \<open>joints0\<close>, \<open>joints1\<close>, \<open>joints2\<close> are the shoulder,
  the knee and the foot, \<open>joints[0]\<close> to \<open>joints[2]\<close>. The shoulder is always computed from the
  link; the knee and the foot can become \<open>NaN\<close>.
\<close>

record Leg3Joint =
  leg_scale :: real
  shoulderWidth :: real
  isShoulderRight :: bool
  isForwardBend :: bool
  anchorAngle :: real
  anchorDistance :: real
  lengthes :: "real \<times> real"
  joints0 :: Vector2D
  joints1 :: "Vector2D js"
  joints2 :: "Vector2D js"
  sticked :: bool
  targetPoint :: Vector2D
  maxDifference :: real
  returnSpeed :: real

definition evalConnPoint :: "ChainLink \<Rightarrow> Leg3Joint \<Rightarrow> Vector2D" where
  "evalConnPoint link leg =
     (let ang = directionAngle link + (pi / 2) * (if isShoulderRight leg then - 1 else 1);
          rad = shoulderWidth leg * leg_scale leg
      in addPolar (pos link) rad ang)"

definition evalTargetPoint :: "ChainLink \<Rightarrow> Leg3Joint \<Rightarrow> Vector2D" where
  "evalTargetPoint link leg =
     (let ang = directionAngle link + anchorAngle leg * (if isShoulderRight leg then - 1 else 1);
          rad = anchorDistance leg * leg_scale leg
      in addPolar (joints0 leg) rad ang)"

text \<open>
  \<open>evalJointPoint\<close>. With a foot that is \<open>NaN\<close> every comparison of the intersection guard is
  false and the two vectors returned are \<open>NaN\<close>. The index \<open>isForwardBend ^ isShoulderRight\<close> is
  \<open>1\<close> when the two flags differ. Without an intersection the knee is interpolated with
  \<open>t = lengthes[0] / (lengthes[0] + lengthes[1])\<close>: for lengths that are not negative the divisor
  is zero only when both are, and \<open>0 / 0\<close> is \<open>NaN\<close>. (With a negative length and a zero sum
  \<open>t\<close> is infinite and the coordinates are infinite or \<open>NaN\<close>; the model writes \<open>NaN\<close> there as
  well.)
\<close>

definition evalJointPoint :: "Leg3Joint \<Rightarrow> Vector2D js" where
  "evalJointPoint leg =
     (case joints2 leg of
        NaN \<Rightarrow> NaN
      | Fin foot \<Rightarrow>
          (let intersectionPoints =
                 getIntercectionPoint (joints0 leg) foot
                   (fst (lengthes leg) * leg_scale leg) (snd (lengthes leg) * leg_scale leg)
           in if length intersectionPoints > 0
              then intersectionPoints ! (if isForwardBend leg \<noteq> isShoulderRight leg then 1 else 0)
              else if fst (lengthes leg) + snd (lengthes leg) = 0 then NaN
              else
                (let t = fst (lengthes leg) / (fst (lengthes leg) + snd (lengthes leg))
                 in Fin \<lparr>vx = vx (joints0 leg) + t * (vx foot - vx (joints0 leg)),
                         vy = vy (joints0 leg) + t * (vy foot - vy (joints0 leg))\<rparr>)))"

text \<open>
  The branch of \<open>Leg3Joint.update\<close> for a leg that is not stuck. When the foot is on the target
  and is still not taken as arrived (a negative \<open>availableDistance\<close>), \<open>ratio\<close> is a quotient by
  zero, infinite or \<open>NaN\<close>, and its product with the zero difference is \<open>NaN\<close>.
\<close>

definition catchUp :: "real \<Rightarrow> Leg3Joint \<Rightarrow> Leg3Joint" where
  "catchUp distTraveled leg =
     (let availableDistance = distTraveled * returnSpeed leg;
          target = targetPoint leg;
          current = joints2 leg;
          distToTarget = map_js (\<lambda>c. distance c target) current;
          lengthSum = (fst (lengthes leg) + snd (lengthes leg)) * leg_scale leg
      in if js_le distToTarget availableDistance
         then leg\<lparr>joints2 := Fin target, sticked := True\<rparr>
         else
           (case current of
              NaN \<Rightarrow> leg\<lparr>joints2 := NaN\<rparr>
            | Fin c \<Rightarrow>
                (let dt = distance c target
                 in if dt = 0 then leg\<lparr>joints2 := NaN\<rparr>
                    else
                      (let ratio = (if dt < lengthSum * 1.5 then availableDistance
                                    else dt - lengthSum) / dt
                       in leg\<lparr>joints2 := Fin \<lparr>vx = vx c + ratio * (vx target - vx c),
                                              vy = vy c + ratio * (vy target - vy c)\<rparr>\<rparr>))))"

text \<open>\<open>Leg3Joint.update()\<close>, for the parent link in its current state.\<close>

definition Leg3Joint_update :: "ChainLink \<Rightarrow> Leg3Joint \<Rightarrow> Leg3Joint" where
  "Leg3Joint_update link leg =
     (let leg1 = leg\<lparr>targetPoint := evalTargetPoint link leg\<rparr>;
          dst = map_js (\<lambda>foot. distance foot (targetPoint leg1)) (joints2 leg1);
          leg2 = (if js_gt dst (maxDifference leg1 * leg_scale leg1)
                  then leg1\<lparr>sticked := False\<rparr> else leg1);
          newJoint0 = evalConnPoint link leg2;
          distTraveled = distance (joints0 leg2) newJoint0;
          leg3 = leg2\<lparr>joints0 := newJoint0\<rparr>;
          leg4 = (if \<not> sticked leg3 then catchUp distTraveled leg3 else leg3)
      in leg4\<lparr>joints1 := evalJointPoint leg4\<rparr>)"

text \<open>\<open>n\<close> calls of \<open>update()\<close>, one after the other, with the parent link at rest.\<close>

fun Leg3Joint_updates :: "nat \<Rightarrow> ChainLink \<Rightarrow> Leg3Joint \<Rightarrow> Leg3Joint" where
  "Leg3Joint_updates 0 link leg = leg"
| "Leg3Joint_updates (Suc n) link leg = Leg3Joint_update link (Leg3Joint_updates n link leg)"

text \<open>The test of \<open>update\<close> that unsticks the foot: \<open>dist > this.maxDifference * this.scale\<close>.\<close>

definition footExceeds :: "ChainLink \<Rightarrow> Leg3Joint \<Rightarrow> bool" where
  "footExceeds link leg =
     js_gt (map_js (\<lambda>foot. distance foot (evalTargetPoint link leg)) (joints2 leg))
       (maxDifference leg * leg_scale leg)"

section \<open>RipplesManager (simulation.js)\<close>

text \<open>
  A point event is an object, and \<open>removePoint\<close> looks it up by identity (\<open>indexOf\<close>). The model
  gives every event a number \<open>ident\<close>, taken from the counter \<open>nextIdent\<close> of the manager, which
  stands for the identity of the object. \<open>maxRipples\<close> is a number of ripples and is modelled
  as a natural number. The time of \<open>Date.now()\<close> is an argument. The timer that \<open>addPoint\<close>
  starts is a later call of \<open>removePoint\<close>.
\<close>

record RippleInstance =
  ident :: nat
  ipos :: Vector2D
  creationTime :: real
  idelay :: real

record RipplesManager =
  points :: "RippleInstance list"
  maxRipples :: nat
  delay :: real
  nextIdent :: nat

definition RipplesManager_new :: "nat \<Rightarrow> real \<Rightarrow> RipplesManager" where
  "RipplesManager_new maxR dly = \<lparr>points = [], maxRipples = maxR, delay = dly, nextIdent = 0\<rparr>"

definition addPoint :: "real \<Rightarrow> Vector2D \<Rightarrow> RipplesManager \<Rightarrow> RipplesManager" where
  "addPoint now point m =
     (if length (points m) \<ge> maxRipples m then m
      else
        (let arrInstance = \<lparr>ident = nextIdent m, ipos = point, creationTime = now, idelay = delay m\<rparr>
         in m\<lparr>points := points m @ [arrInstance], nextIdent := Suc (nextIdent m)\<rparr>))"

text \<open>\<open>splice(index, 1)\<close> at the first index that holds the object.\<close>

fun removeFirst :: "nat \<Rightarrow> RippleInstance list \<Rightarrow> RippleInstance list" where
  "removeFirst i [] = []"
| "removeFirst i (r # rs) = (if ident r = i then rs else r # removeFirst i rs)"

definition removePoint :: "RippleInstance \<Rightarrow> RipplesManager \<Rightarrow> RipplesManager" where
  "removePoint arrInstance m = m\<lparr>points := removeFirst (ident arrInstance) (points m)\<rparr>"

definition getPoints :: "RipplesManager \<Rightarrow> Vector2D list" where
  "getPoints m = map ipos (points m)"

datatype RipplesCall = AddPoint real Vector2D | RemovePoint RippleInstance

fun runCall :: "RipplesManager \<Rightarrow> RipplesCall \<Rightarrow> RipplesManager" where
  "runCall m (AddPoint now point) = addPoint now point m"
| "runCall m (RemovePoint arrInstance) = removePoint arrInstance m"

definition runCalls :: "RipplesCall list \<Rightarrow> RipplesManager \<Rightarrow> RipplesManager" where
  "runCalls calls m = foldl runCall m calls"

section \<open>Boid (simulation.js)\<close>

record SimulationParams =
  perceptionRadius :: real
  alignmentImpact :: real
  cohesionImpact :: real
  avoidanceImpact :: real
  mouseForceRadius :: real
  mouseForceScale :: real
  maxVelocity :: real
  maxAcceleration :: real

text \<open>
  The stored boundaries of the simulation. The field \<open>top\<close> of the source is \<open>top_edge\<close> here.
\<close>

record Boundaries =
  width :: real
  height :: real
  left :: real
  top_edge :: real
  margin :: real

text \<open>
  A boid owns three vectors and, optionally, an animal. The animal is any object with a method
  \<open>update(pos)\<close>; its state has the type \<open>'a\<close>, and the method is the argument \<open>upd\<close> of the
  functions that call it (for a \<open>BodyBase\<close> of at least two links and a position that is a
  number, \<open>BodyBase_update\<close>). The vectors of a boid can become \<open>NaN\<close> (when two boids
  coincide, see \<open>separate\<close>).
\<close>

record 'a Boid =
  position :: "Vector2D js"
  velocity :: "Vector2D js"
  acceleration :: "Vector2D js"
  animal :: "'a option"

text \<open>The argument \<open>deltaTime\<close> of \<open>update\<close>: a number, \<open>NaN\<close>, or left out.\<close>

datatype deltaTime = DNum real | DNaN | DUndefined

definition falsy :: "deltaTime \<Rightarrow> bool" where
  "falsy dt = (case dt of DNum t \<Rightarrow> t = 0 | DNaN \<Rightarrow> True | DUndefined \<Rightarrow> True)"

text \<open>\<open>Boid.update(deltaTime, params)\<close>.\<close>

definition Boid_update ::
  "(Vector2D js \<Rightarrow> 'a \<Rightarrow> 'a) \<Rightarrow> deltaTime \<Rightarrow> SimulationParams \<Rightarrow> 'a Boid \<Rightarrow> 'a Boid" where
  "Boid_update upd dt params b =
     (case dt of
        DNaN \<Rightarrow> b
      | DUndefined \<Rightarrow> b
      | DNum t \<Rightarrow>
          if t = 0 then b
          else
            (let position' = lift2 add (position b) (map_js (\<lambda>v. scale v t) (velocity b));
                 velocity' = lift2 add (velocity b) (acceleration b);
                 velocity'' = map_js (\<lambda>v. clampMag v (maxVelocity params) None) velocity'
             in b\<lparr>position := position',
                   velocity := velocity'',
                   animal := (case animal b of
                                None \<Rightarrow> None
                              | Some a \<Rightarrow> Some (upd position' (upd position' a)))\<rparr>))"

text \<open>\<open>Boid.edges(boundaries)\<close>.\<close>

definition edges :: "Boundaries \<Rightarrow> 'a Boid \<Rightarrow> 'a Boid" where
  "edges bnd b =
     b\<lparr>position :=
         map_js (\<lambda>p.
           \<lparr>vx = (if vx p > width bnd + left bnd then left bnd
                   else if vx p < left bnd then width bnd + left bnd
                   else vx p),
             vy = (if vy p > height bnd + top_edge bnd then top_edge bnd
                   else if vy p < top_edge bnd then height bnd + top_edge bnd
                   else vy p)\<rparr>) (position b)\<rparr>"

text \<open>
  The three steering vectors. \<open>this\<close> is the boid itself and \<open>others\<close> the boids of the flock
  that are not \<open>this\<close>, in the order of the array. Each function runs through them with a pair of
  the vector summed so far and \<open>totalBoids\<close>.
\<close>

definition steer :: "Vector2D js \<Rightarrow> 'a Boid \<Rightarrow> SimulationParams \<Rightarrow> Vector2D js" where
  "steer v this params =
     map_js (\<lambda>u. clampMag u (maxAcceleration params) None)
       (lift2 sub (map_js (\<lambda>u. setMagnitude u (maxVelocity params)) v) (velocity this))"

definition align :: "'a Boid \<Rightarrow> 'a Boid list \<Rightarrow> SimulationParams \<Rightarrow> Vector2D js" where
  "align this others params =
     (let (desiredForce, totalBoids) =
            foldl (\<lambda>(desiredForce, totalBoids) boid.
                     if js_lt (lift2 distance (position this) (position boid)) (perceptionRadius params)
                     then (lift2 add desiredForce (velocity boid), totalBoids + 1)
                     else (desiredForce, totalBoids))
                  (Fin Zero, 0 :: nat) others
      in if totalBoids > 0
         then steer (map_js (\<lambda>v. Vector2D_div v (real totalBoids)) desiredForce) this params
         else desiredForce)"

definition cohesion :: "'a Boid \<Rightarrow> 'a Boid list \<Rightarrow> SimulationParams \<Rightarrow> Vector2D js" where
  "cohesion this others params =
     (let (steering, totalBoids) =
            foldl (\<lambda>(steering, totalBoids) boid.
                     if js_lt (lift2 distance (position this) (position boid)) (perceptionRadius params)
                     then (lift2 add steering (position boid), totalBoids + 1)
                     else (steering, totalBoids))
                  (Fin Zero, 0 :: nat) others
      in if totalBoids > 0
         then steer (lift2 sub (map_js (\<lambda>v. Vector2D_div v (real totalBoids)) steering)
                       (position this)) this params
         else steering)"

text \<open>
  In \<open>separate\<close> the difference to a neighbour is divided by the distance \<open>d\<close>. A neighbour at
  the same position has \<open>d = 0\<close> and the difference \<open>(0, 0)\<close>: both quotients are \<open>0 / 0\<close>.
\<close>

definition separate :: "'a Boid \<Rightarrow> 'a Boid list \<Rightarrow> SimulationParams \<Rightarrow> Vector2D js" where
  "separate this others params =
     (let (avoidance, totalBoids) =
            foldl (\<lambda>(avoidance, totalBoids) boid.
                     (case lift2 (\<lambda>p q. (p, q)) (position this) (position boid) of
                        NaN \<Rightarrow> (avoidance, totalBoids)
                      | Fin (p, q) \<Rightarrow>
                          (let d = distance p q
                           in if d < perceptionRadius params
                              then (lift2 add avoidance
                                      (if d = 0 then NaN else Fin (Vector2D_div (sub p q) d)),
                                    totalBoids + 1)
                              else (avoidance, totalBoids))))
                  (Fin \<lparr>vx = 0, vy = 0\<rparr>, 0 :: nat) others
      in if totalBoids > 0
         then steer (map_js (\<lambda>v. Vector2D_div v (real totalBoids)) avoidance) this params
         else avoidance)"

text \<open>\<open>Boid.flock(boids, params)\<close>.\<close>

definition Boid_flock :: "'a Boid list \<Rightarrow> SimulationParams \<Rightarrow> 'a Boid \<Rightarrow> 'a Boid" where
  "Boid_flock others params this =
     (let alignment = map_js (\<lambda>v. scale v (alignmentImpact params)) (align this others params);
          cohesionV = map_js (\<lambda>v. scale v (cohesionImpact params)) (cohesion this others params);
          avoidance = map_js (\<lambda>v. scale v (avoidanceImpact params)) (separate this others params)
      in this\<lparr>acceleration :=
                lift2 add (lift2 add (lift2 add (Fin \<lparr>vx = 0, vy = 0\<rparr>) alignment) cohesionV)
                  avoidance\<rparr>)"

text \<open>
  \<open>Boid.applyForce(vec, scale, radius)\<close>; \<open>radius\<close> is \<open>None\<close> when it is left out. At distance
  zero the new magnitude \<open>(1 / 0) * scale\<close> is infinite or \<open>NaN\<close>, and the setter does not use it.
\<close>

definition applyForce :: "Vector2D \<Rightarrow> real \<Rightarrow> real option \<Rightarrow> 'a Boid \<Rightarrow> 'a Boid" where
  "applyForce vec scl rad b =
     (let forceVec = map_js (\<lambda>p. sub p vec) (position b)
      in if (case rad of None \<Rightarrow> False | Some r \<Rightarrow> js_gt (map_js magnitude forceVec) r) then b
         else
           (let forceVec' = map_js (\<lambda>f. setMagnitude f ((1 / magnitude f) * scl)) forceVec
            in b\<lparr>acceleration := lift2 add (acceleration b) forceVec'\<rparr>))"

section \<open>Simulation (simulation.js)\<close>

record 'a Simulation =
  flock :: "'a Boid list"
  boundaries :: Boundaries
  params :: SimulationParams
  ripples :: RipplesManager

text \<open>The boundaries that the constructor stores for \<open>{width, height, margin}\<close>.\<close>

definition initBoundaries :: "real \<Rightarrow> real \<Rightarrow> real \<Rightarrow> Boundaries" where
  "initBoundaries w h m =
     \<lparr>width = w + m * 2, height = h + m * 2, left = - m, top_edge = - m, margin = m\<rparr>"

text \<open>
  \<open>setBounds(newWidth, newHeight, newMargin)\<close>, as a function of the stored boundaries. The first
  statement is \<open>newWidth = Math.max(1, newMargin)\<close>. Without \<open>newMargin\<close> that maximum is \<open>NaN\<close>,
  and so is the stored width: the result is \<open>NaN\<close>.
\<close>

definition setBounds :: "real \<Rightarrow> real \<Rightarrow> real option \<Rightarrow> Boundaries \<Rightarrow> Boundaries js" where
  "setBounds newWidth newHeight newMargin bnd =
     (let newWidth' = (case newMargin of None \<Rightarrow> NaN | Some m \<Rightarrow> Fin (max 1 m));
          newHeight' = max 1 newHeight;
          mrg = (case newMargin of Some m \<Rightarrow> m | None \<Rightarrow> margin bnd)
      in map_js (\<lambda>w. \<lparr>width = w + mrg * 2, height = newHeight' + mrg * 2,
                        left = - mrg, top_edge = - mrg, margin = mrg\<rparr>) newWidth')"

text \<open>
  One pass of the loop of \<open>Simulation.update\<close>, for the boid at index \<open>i\<close>. The array is changed
  in place: a boid sees the boids before it as this tick has left them.
\<close>

definition updateBoid ::
  "(Vector2D js \<Rightarrow> 'a \<Rightarrow> 'a) \<Rightarrow> deltaTime \<Rightarrow> Boundaries \<Rightarrow> SimulationParams \<Rightarrow> Vector2D list \<Rightarrow>
     'a Boid list \<Rightarrow> nat \<Rightarrow> 'a Boid list" where
  "updateBoid upd dt bnd prm ripplePoints boids i =
     (let boid = edges bnd (boids ! i);
          boid = Boid_flock (take i boids @ drop (Suc i) boids) prm boid;
          boid = foldl (\<lambda>b point. applyForce point (mouseForceScale prm) (Some (mouseForceRadius prm)) b)
                   boid ripplePoints;
          boid = Boid_update upd dt prm boid
      in boids[i := boid])"

text \<open>\<open>Simulation.update(deltaTime)\<close>.\<close>

definition Simulation_update ::
  "(Vector2D js \<Rightarrow> 'a \<Rightarrow> 'a) \<Rightarrow> deltaTime \<Rightarrow> 'a Simulation \<Rightarrow> 'a Simulation" where
  "Simulation_update upd dt sim =
     (let ripplePoints = getPoints (ripples sim)
      in sim\<lparr>flock := foldl (updateBoid upd dt (boundaries sim) (params sim) ripplePoints)
                        (flock sim) [0 ..< length (flock sim)]\<rparr>)"

text \<open>
  An animal that keeps the list of the positions its \<open>update\<close> has been called with, for counting
  the calls.
\<close>

definition recordCall :: "Vector2D js \<Rightarrow> Vector2D js list \<Rightarrow> Vector2D js list" where
  "recordCall p calls = calls @ [p]"

section \<open>Auxiliary definitions\<close>

text \<open>The clamp of \<open>ChainLink.update\<close> on the wrapped angle difference, named for the proofs.\<close>

definition clampDiff :: "real \<Rightarrow> real \<Rightarrow> real" where
  "clampDiff angleDiff maxAngleRad =
     (if angleDiff < 0 then min angleDiff (- maxAngleRad) else max angleDiff maxAngleRad)"

text \<open>The links as \<open>BodyBase.update\<close> leaves them, for a chain of at least two links.\<close>

definition updatedChain :: "Vector2D \<Rightarrow> real \<Rightarrow> real \<Rightarrow> ChainLink \<Rightarrow> ChainLink \<Rightarrow> ChainLink list \<Rightarrow> ChainLink list" where
  "updatedChain headPos dst maxAng link1 link2 links =
     link1\<lparr>pos := headPos, directionAngle := angle (sub (pos link2) headPos)\<rparr> #
     link2\<lparr>pos := addPolar headPos dst (angle (sub (pos link2) headPos)),
            directionAngle := angle (sub (pos link2) headPos)\<rparr> #
     updateLinks dst maxAng
       (link1\<lparr>pos := headPos, directionAngle := angle (sub (pos link2) headPos)\<rparr>)
       (link2\<lparr>pos := addPolar headPos dst (angle (sub (pos link2) headPos)),
              directionAngle := angle (sub (pos link2) headPos)\<rparr>)
       links"

text \<open>
  The two vectors that \<open>getIntercectionPoint\<close> returns for circles with different centres:
  \<open>sg = 1\<close> gives the first and \<open>sg = -1\<close> the second.
\<close>

definition crossing :: "Vector2D \<Rightarrow> Vector2D \<Rightarrow> real \<Rightarrow> real \<Rightarrow> real \<Rightarrow> Vector2D" where
  "crossing p1 p2 r1 r2 sg =
     (let d = distance p2 p1;
          u = (vx p2 - vx p1) / d;
          w = (vy p2 - vy p1) / d;
          a = (r1 * r1 - r2 * r2 + d * d) / (2 * d);
          h = sqrt (r1 * r1 - a * a)
      in \<lparr>vx = vx p1 + a * u + sg * h * w, vy = vy p1 + a * w - sg * h * u\<rparr>)"

text \<open>
  The bound of C1 for a link against its two constrainers, and along a chain: every link of
  the list against the two links before it, starting with \<open>prev2\<close> and \<open>prev1\<close>.
\<close>

definition outsideCone :: "real \<Rightarrow> ChainLink \<Rightarrow> ChainLink \<Rightarrow> ChainLink \<Rightarrow> bool" where
  "outsideCone maxAng angleConstrainer distConstrainer link =
     (180 - maxAng \<le>
        \<bar>wrapAngle (angle (sub (pos link) (pos distConstrainer))
                     - angle (sub (pos angleConstrainer) (pos distConstrainer)))\<bar> * 180 / pi)"

fun chainOutsideCone :: "real \<Rightarrow> ChainLink \<Rightarrow> ChainLink \<Rightarrow> ChainLink list \<Rightarrow> bool" where
  "chainOutsideCone maxAng prev2 prev1 [] = True"
| "chainOutsideCone maxAng prev2 prev1 (link # links) =
     (outsideCone maxAng prev2 prev1 link \<and> chainOutsideCone maxAng prev1 link links)"

section \<open>Example data\<close>

abbreviation link0 :: ChainLink where
  "link0 \<equiv> \<lparr>radius = 10, pos = \<lparr>vx = 0, vy = 0\<rparr>, directionAngle = 0\<rparr>"

abbreviation leg0 :: Leg3Joint where
  "leg0 \<equiv>
     \<lparr>leg_scale = 1, shoulderWidth = 1, isShoulderRight = False, isForwardBend = True,
      anchorAngle = 0, anchorDistance = 1, lengthes = (1, 1),
      joints0 = \<lparr>vx = 0, vy = 1\<rparr>, joints1 = Fin \<lparr>vx = 0, vy = 0\<rparr>,
      joints2 = Fin \<lparr>vx = 1, vy = 1\<rparr>, sticked = True, targetPoint = \<lparr>vx = 1, vy = 1\<rparr>,
      maxDifference = 1, returnSpeed = 2\<rparr>"

abbreviation params0 :: SimulationParams where
  "params0 \<equiv>
     \<lparr>perceptionRadius = 50, alignmentImpact = 1, cohesionImpact = 2 / 5, avoidanceImpact = 1,
      mouseForceRadius = 150, mouseForceScale = 100, maxVelocity = 8, maxAcceleration = 1\<rparr>"

abbreviation boid0 :: "Vector2D js list Boid" where
  "boid0 \<equiv>
     \<lparr>position = Fin \<lparr>vx = 3, vy = 4\<rparr>, velocity = Fin \<lparr>vx = 1, vy = 0\<rparr>,
      acceleration = Fin \<lparr>vx = 0, vy = 0\<rparr>, animal = Some []\<rparr>"

abbreviation boid1 :: "Vector2D js list Boid" where
  "boid1 \<equiv>
     \<lparr>position = Fin \<lparr>vx = 0, vy = 0\<rparr>, velocity = Fin \<lparr>vx = 1, vy = 0\<rparr>,
      acceleration = Fin \<lparr>vx = 0, vy = 0\<rparr>, animal = Some []\<rparr>"

abbreviation sim0 :: "Vector2D js list Simulation" where
  "sim0 \<equiv>
     \<lparr>flock = [boid1], boundaries = initBoundaries 800 600 50, params = params0,
      ripples = RipplesManager_new 10 600\<rparr>"

section \<open>Angles\<close>

lemma atan2_range: "- pi < atan2 b a \<and> atan2 b a \<le> pi"
proof -
  have "- (pi / 2) < arctan (b / a)" "arctan (b / a) < pi / 2"
    using arctan_bounded[of "b / a"] by auto
  moreover have "a < 0 \<Longrightarrow> 0 \<le> b \<Longrightarrow> arctan (b / a) \<le> 0"
    by (simp add: divide_nonneg_neg arctan_le_zero_iff)
  moreover have "a < 0 \<Longrightarrow> b < 0 \<Longrightarrow> 0 < arctan (b / a)"
    by (simp add: divide_neg_neg)
  ultimately show ?thesis
    using pi_gt_zero by (auto simp: atan2_def)
qed

lemma sqrt_split: "a \<noteq> 0 \<Longrightarrow> sqrt (a * a + b * b) = \<bar>a\<bar> * sqrt (1 + (b / a)\<^sup>2)"
proof -
  assume a: "a \<noteq> 0"
  have "a * a + b * b = a\<^sup>2 * (1 + (b / a)\<^sup>2)"
    using a by (simp add: power2_eq_square field_simps)
  then show ?thesis
    by (simp add: real_sqrt_mult)
qed

lemma cos_atan2: "cos (atan2 b a) * sqrt (a * a + b * b) = a"
proof (cases "a = 0")
  case True
  then show ?thesis by (simp add: atan2_def)
next
  case False
  have pos: "0 < sqrt (1 + (b / a)\<^sup>2)"
    by (simp add: add_pos_nonneg)
  have c: "cos (arctan (b / a)) * sqrt (a * a + b * b) = \<bar>a\<bar>"
    using False pos by (simp add: sqrt_split cos_arctan)
  show ?thesis
    using False c by (auto simp: atan2_def algebra_simps)
qed

lemma sin_atan2: "sin (atan2 b a) * sqrt (a * a + b * b) = b"
proof (cases "a = 0")
  case True
  then show ?thesis by (simp add: atan2_def)
next
  case False
  have pos: "0 < sqrt (1 + (b / a)\<^sup>2)"
    by (simp add: add_pos_nonneg)
  have c: "sin (arctan (b / a)) * sqrt (a * a + b * b) = b / a * \<bar>a\<bar>"
    using False pos by (simp add: sqrt_split sin_arctan)
  show ?thesis
    using False c by (auto simp: atan2_def algebra_simps)
qed

lemma atan2_polar_ex:
  assumes "0 < d"
  shows "\<exists>k::int. atan2 (d * sin t) (d * cos t) = t + 2 * pi * of_int k"
proof -
  let ?p = "atan2 (d * sin t) (d * cos t)"
  have "(d * c) * (d * c) + (d * s) * (d * s) = d\<^sup>2 * (c\<^sup>2 + s\<^sup>2)" for c s :: real
    by (simp add: power2_eq_square algebra_simps)
  then have "(d * cos t) * (d * cos t) + (d * sin t) * (d * sin t) = d\<^sup>2 * ((cos t)\<^sup>2 + (sin t)\<^sup>2)"
    by blast
  then have s: "sqrt ((d * cos t) * (d * cos t) + (d * sin t) * (d * sin t)) = d"
    using assms by simp
  have "cos ?p * d = d * cos t" "sin ?p * d = d * sin t"
    using cos_atan2[of "d * sin t" "d * cos t"] sin_atan2[of "d * sin t" "d * cos t"] s by auto
  then have "sin ?p = sin t \<and> cos ?p = cos t"
    using assms by auto
  then show ?thesis
    by (simp add: sin_cos_eq_iff)
qed


lemma atan2_polar_id:
  assumes "0 < d" "- pi < t" "t \<le> pi"
  shows "atan2 (d * sin t) (d * cos t) = t"
proof -
  obtain k :: int where k: "atan2 (d * sin t) (d * cos t) = t + 2 * pi * of_int k"
    using atan2_polar_ex[OF assms(1)] by blast
  have r: "- pi < t + 2 * pi * of_int k" "t + 2 * pi * of_int k \<le> pi"
    using atan2_range[of "d * sin t" "d * cos t"] k by auto
  have "2 * pi * of_int k < 2 * pi" using r assms by linarith
  then have "k < 1" using pi_gt_zero by (simp add: mult_less_cancel_left_pos)
  moreover have "- (2 * pi) < 2 * pi * of_int k" using r assms by linarith
  then have "2 * pi * (- 1) < 2 * pi * of_int k" by simp
  then have "-1 < k" using pi_gt_zero by (simp only: mult_less_cancel_left_pos)
  ultimately have "k = 0" by linarith
  then show ?thesis using k by simp
qed

lemma wrapAngle_range:
  assumes "- 2 * pi < u" "u \<le> 2 * pi"
  shows "- pi < wrapAngle u \<and> wrapAngle u \<le> pi"
  using assms pi_gt_zero by (auto simp: wrapAngle_def)

lemma wrapAngle_ex: "\<exists>j::int. wrapAngle u = u + 2 * pi * of_int j"
proof -
  have "u - 2 * pi = u + 2 * pi * of_int (- 1)" "u + 2 * pi = u + 2 * pi * of_int 1"
    "u = u + 2 * pi * of_int 0"
    by simp_all
  then show ?thesis
    unfolding wrapAngle_def by (metis (full_types))
qed

lemma two_pi_shift:
  assumes "- pi \<le> c" "c \<le> pi" "- pi < c + 2 * pi * of_int m" "c + 2 * pi * of_int m \<le> pi"
  shows "m = 0 \<or> (m = 1 \<and> c = - pi)"
proof -
  have "2 * pi * of_int m \<le> 2 * pi * 1" using assms by linarith
  then have le: "m \<le> 1" using pi_gt_zero by (simp only: mult_le_cancel_left_pos)
  have "2 * pi * (- 1) < 2 * pi * of_int m" using assms by linarith
  then have "- 1 < (of_int m :: real)" using pi_gt_zero by (simp only: mult_less_cancel_left_pos)
  then have ge: "0 \<le> m" by linarith
  from le ge have "m = 0 \<or> m = 1" by linarith
  then show ?thesis using assms by auto
qed

lemma wrap_polar:
  assumes d: "0 < d" and a: "- pi < anchor" "anchor \<le> pi" and c: "- pi \<le> c" "c \<le> pi"
  shows "wrapAngle (atan2 (d * sin (c + anchor)) (d * cos (c + anchor)) - anchor)
         = (if c = - pi then pi else c)"
proof -
  let ?p = "atan2 (d * sin (c + anchor)) (d * cos (c + anchor))"
  obtain k :: int where k: "?p = c + anchor + 2 * pi * of_int k"
    using atan2_polar_ex[OF d] by blast
  have pr: "- pi < ?p" "?p \<le> pi" using atan2_range by auto
  have ur: "- 2 * pi < ?p - anchor" "?p - anchor \<le> 2 * pi" using pr a by auto
  obtain j :: int where j: "wrapAngle (?p - anchor) = ?p - anchor + 2 * pi * of_int j"
    using wrapAngle_ex by blast
  have w: "wrapAngle (?p - anchor) = c + 2 * pi * of_int (k + j)"
    using j k by (simp add: algebra_simps)
  have wr: "- pi < c + 2 * pi * of_int (k + j)" "c + 2 * pi * of_int (k + j) \<le> pi"
    using wrapAngle_range[OF ur] w by auto
  from two_pi_shift[OF c wr] consider "k + j = 0" | "k + j = 1" "c = - pi"
    by blast
  then show ?thesis
  proof cases
    case 1
    then have "wrapAngle (?p - anchor) = c" using w by simp
    moreover have "c \<noteq> - pi" using wr 1 by auto
    ultimately show ?thesis by simp
  next
    case 2
    then have "wrapAngle (?p - anchor) = pi" using w by simp
    then show ?thesis using 2 by simp
  qed
qed

lemma angle_range: "- pi < angle v \<and> angle v \<le> pi"
  by (simp add: angle_def atan2_range)

lemma angle_addPolar:
  "angle (sub (addPolar b d t) b) = atan2 (d * sin t) (d * cos t)"
  by (simp add: angle_def sub_def addPolar_def)


lemma pos_ChainLink_update:
  "pos (ChainLink_update this dc d ac m) =
     addPolar (pos dc) d
       (clampDiff (wrapAngle (angle (sub (pos this) (pos dc)) - angle (sub (pos ac) (pos dc))))
          (((180 - m) * pi) / 180) + angle (sub (pos ac) (pos dc)))"
  by (simp add: ChainLink_update_def Let_def clampDiff_def)

lemma clampDiff_bounds:
  assumes "0 \<le> M" "M \<le> pi" "- pi < u" "u \<le> pi"
  shows "- pi \<le> clampDiff u M" "clampDiff u M \<le> pi" "M \<le> \<bar>clampDiff u M\<bar>"
  using assms by (auto simp: clampDiff_def)

lemma maxAngleRad_bounds:
  assumes "0 \<le> m" "m \<le> 180"
  shows "0 \<le> ((180 - m) * pi) / 180" "((180 - m) * pi) / 180 \<le> pi"
proof -
  show "0 \<le> ((180 - m) * pi) / 180" using assms by simp
  have "(180 - m) * pi \<le> 180 * pi" using assms pi_gt_zero by (intro mult_right_mono) auto
  then show "((180 - m) * pi) / 180 \<le> pi" by simp
qed

section \<open>The angle clamp of ChainLink.update\<close>

lemma ChainLink_update_cone_rad:
  assumes "0 \<le> maxAng" "maxAng \<le> 180" "0 < dst"
  shows "((180 - maxAng) * pi) / 180 \<le>
         \<bar>wrapAngle (angle (sub (pos (ChainLink_update this distConstrainer dst angleConstrainer maxAng))
                                (pos distConstrainer))
                      - angle (sub (pos angleConstrainer) (pos distConstrainer)))\<bar>"
proof -
  let ?anchor = "angle (sub (pos angleConstrainer) (pos distConstrainer))"
  let ?M = "((180 - maxAng) * pi) / 180"
  let ?u = "wrapAngle (angle (sub (pos this) (pos distConstrainer)) - ?anchor)"
  let ?c = "clampDiff ?u ?M"
  have ar: "- pi < ?anchor" "?anchor \<le> pi" using angle_range by auto
  have cr: "- pi < angle (sub (pos this) (pos distConstrainer))" "angle (sub (pos this) (pos distConstrainer)) \<le> pi"
    using angle_range by auto
  have ur: "- pi < ?u" "?u \<le> pi"
    using wrapAngle_range[of "angle (sub (pos this) (pos distConstrainer)) - ?anchor"] ar cr by auto
  note mb = maxAngleRad_bounds[OF assms(1,2)]
  note cb = clampDiff_bounds[OF mb ur]
  have "wrapAngle (angle (sub (pos (ChainLink_update this distConstrainer dst angleConstrainer maxAng))
                                (pos distConstrainer)) - ?anchor) = (if ?c = - pi then pi else ?c)"
    unfolding pos_ChainLink_update angle_addPolar
    by (rule wrap_polar[OF assms(3) ar cb(1,2)])
  then have "\<bar>wrapAngle (angle (sub (pos (ChainLink_update this distConstrainer dst angleConstrainer maxAng))
                                (pos distConstrainer)) - ?anchor)\<bar> = \<bar>?c\<bar>"
    by auto
  then show ?thesis
    using cb(3) by simp
qed

text \<open>
  C1 (as amended). \<open>ChainLink.update\<close> measures the anchor direction from the distance
  constrainer (link \<open>i - 1\<close>) to the angle constrainer (link \<open>i - 2\<close>). For every \<open>maxAngle\<close> in
  \<open>[0, 180]\<close>, every positive link distance and all positions of the three links, the direction
  from link \<open>i - 1\<close> to the new position of link \<open>i\<close> differs from that anchor direction, after
  wrapping into \<open>(-180, 180]\<close> degrees, by at least \<open>180 - maxAngle\<close> degrees in magnitude.
\<close>

theorem ChainLink_update_outside_cone:
  assumes "0 \<le> maxAng" "maxAng \<le> 180" "0 < dst"
  shows "180 - maxAng \<le>
         \<bar>wrapAngle (angle (sub (pos (ChainLink_update this distConstrainer dst angleConstrainer maxAng))
                                (pos distConstrainer))
                      - angle (sub (pos angleConstrainer) (pos distConstrainer)))\<bar> * 180 / pi"
proof -
  let ?w = "wrapAngle (angle (sub (pos (ChainLink_update this distConstrainer dst angleConstrainer maxAng))
                                  (pos distConstrainer))
                        - angle (sub (pos angleConstrainer) (pos distConstrainer)))"
  let ?M = "((180 - maxAng) * pi) / 180"
  have "?M \<le> \<bar>?w\<bar>"
    by (rule ChainLink_update_cone_rad[OF assms])
  then have "?M * (180 / pi) \<le> \<bar>?w\<bar> * (180 / pi)"
    using pi_gt_zero by (intro mult_right_mono) auto
  moreover have "?M * (180 / pi) = 180 - maxAng"
    using pi_gt_zero by simp
  ultimately show ?thesis by simp
qed

theorem ChainLink_update_outside_cone_witness:
  "(0::real) \<le> 30 \<and> (30::real) \<le> 180 \<and> (0::real) < 1 \<and>
   180 - 30 \<le>
     \<bar>wrapAngle
        (angle (sub (pos (ChainLink_update
                            \<lparr>radius = 10, pos = \<lparr>vx = 1, vy = 1\<rparr>, directionAngle = 0\<rparr>
                            \<lparr>radius = 10, pos = \<lparr>vx = 1, vy = 0\<rparr>, directionAngle = 0\<rparr>
                            1
                            \<lparr>radius = 10, pos = \<lparr>vx = 0, vy = 0\<rparr>, directionAngle = 0\<rparr>
                            30))
                    (pos \<lparr>radius = 10, pos = \<lparr>vx = 1, vy = 0\<rparr>, directionAngle = 0\<rparr>))
         - angle (sub (pos \<lparr>radius = 10, pos = \<lparr>vx = 0, vy = 0\<rparr>, directionAngle = 0\<rparr>)
                      (pos \<lparr>radius = 10, pos = \<lparr>vx = 1, vy = 0\<rparr>, directionAngle = 0\<rparr>)))\<bar>
       * 180 / pi"
  using ChainLink_update_outside_cone
          [of 30 1 "\<lparr>radius = 10, pos = \<lparr>vx = 1, vy = 1\<rparr>, directionAngle = 0\<rparr>"
              "\<lparr>radius = 10, pos = \<lparr>vx = 1, vy = 0\<rparr>, directionAngle = 0\<rparr>"
              "\<lparr>radius = 10, pos = \<lparr>vx = 0, vy = 0\<rparr>, directionAngle = 0\<rparr>"]
  by simp

text \<open>
  C1 as stated measures the anchor the other way round, from link \<open>i - 2\<close> to link \<open>i - 1\<close>.
  On a straight chain \<open>(0, 0)\<close>, \<open>(1, 0)\<close>, \<open>(2, 0)\<close> with link distance \<open>1\<close> and
  \<open>maxAngle = 30\<close> the third link stays at \<open>(2, 0)\<close>, both directions are \<open>0\<close>, and their
  difference is \<open>0\<close>, not \<open>150\<close> degrees or more.
\<close>

theorem ChainLink_update_straight_chain_counterexample:
  "\<not> (180 - 30 \<le>
     \<bar>wrapAngle
        (angle (sub (pos (ChainLink_update
                            \<lparr>radius = 10, pos = \<lparr>vx = 2, vy = 0\<rparr>, directionAngle = 0\<rparr>
                            \<lparr>radius = 10, pos = \<lparr>vx = 1, vy = 0\<rparr>, directionAngle = 0\<rparr>
                            1
                            \<lparr>radius = 10, pos = \<lparr>vx = 0, vy = 0\<rparr>, directionAngle = 0\<rparr>
                            30))
                    (pos \<lparr>radius = 10, pos = \<lparr>vx = 1, vy = 0\<rparr>, directionAngle = 0\<rparr>))
         - angle (sub (pos \<lparr>radius = 10, pos = \<lparr>vx = 1, vy = 0\<rparr>, directionAngle = 0\<rparr>)
                      (pos \<lparr>radius = 10, pos = \<lparr>vx = 0, vy = 0\<rparr>, directionAngle = 0\<rparr>)))\<bar>
       * 180 / pi)"
  by (simp add: ChainLink_update_def Let_def sub_def angle_def atan2_def wrapAngle_def
        addPolar_def not_le)

section \<open>Repeating BodyBase.update\<close>

lemma clampDiff_idem: "0 \<le> M \<Longrightarrow> clampDiff (clampDiff u M) M = clampDiff u M"
  by (auto simp: clampDiff_def)

lemma clampDiff_pi: "M \<le> pi \<Longrightarrow> clampDiff pi M = pi"
  using pi_gt_zero by (auto simp: clampDiff_def)

lemma addPolar_2pi: "addPolar b d (t + 2 * pi) = addPolar b d t"
  by (simp add: addPolar_def)

lemma ChainLink_update_pos_idem:
  assumes m: "0 \<le> m" "m \<le> 180" and d: "0 < d"
    and eq: "pos dc' = pos dc" "pos ac' = pos ac"
  shows "pos (ChainLink_update (ChainLink_update this dc d ac m) dc' d ac' m)
         = pos (ChainLink_update this dc d ac m)"
proof -
  let ?anchor = "angle (sub (pos ac) (pos dc))"
  let ?M = "((180 - m) * pi) / 180"
  let ?u = "wrapAngle (angle (sub (pos this) (pos dc)) - ?anchor)"
  let ?c = "clampDiff ?u ?M"
  have ar: "- pi < ?anchor" "?anchor \<le> pi" using angle_range by auto
  have cr: "- pi < angle (sub (pos this) (pos dc))" "angle (sub (pos this) (pos dc)) \<le> pi"
    using angle_range by auto
  have ur: "- pi < ?u" "?u \<le> pi"
    using wrapAngle_range[of "angle (sub (pos this) (pos dc)) - ?anchor"] ar cr by auto
  note mb = maxAngleRad_bounds[OF m]
  note cb = clampDiff_bounds[OF mb ur]
  have p1: "pos (ChainLink_update this dc d ac m) = addPolar (pos dc) d (?c + ?anchor)"
    by (rule pos_ChainLink_update)
  have w: "wrapAngle (angle (sub (addPolar (pos dc) d (?c + ?anchor)) (pos dc)) - ?anchor)
           = (if ?c = - pi then pi else ?c)"
    unfolding angle_addPolar by (rule wrap_polar[OF d ar cb(1,2)])
  have p2: "pos (ChainLink_update (ChainLink_update this dc d ac m) dc' d ac' m)
            = addPolar (pos dc) d (clampDiff (if ?c = - pi then pi else ?c) ?M + ?anchor)"
    unfolding pos_ChainLink_update[of "ChainLink_update this dc d ac m"] eq p1 w ..
  show ?thesis
  proof (cases "?c = - pi")
    case True
    then have "clampDiff (if ?c = - pi then pi else ?c) ?M + ?anchor = (?c + ?anchor) + 2 * pi"
      using clampDiff_pi[OF mb(2)] by simp
    then show ?thesis unfolding p1 p2 by (simp only: addPolar_2pi)
  next
    case False
    then have "clampDiff (if ?c = - pi then pi else ?c) ?M = ?c"
      using clampDiff_idem[OF mb(1)] by simp
    then show ?thesis unfolding p1 p2 by simp
  qed
qed

lemma ChainLink_update_cong:
  assumes "pos this' = pos this" "radius this' = radius this" "pos dc' = pos dc" "pos ac' = pos ac"
  shows "ChainLink_update this' dc' d ac' m = ChainLink_update this dc d ac m"
  using assms by (simp add: ChainLink_update_def Let_def)

lemma radius_ChainLink_update [simp]: "radius (ChainLink_update this dc d ac m) = radius this"
  by (simp add: ChainLink_update_def Let_def)

lemma length_updateLinks [simp]: "length (updateLinks d m a b ls) = length ls"
  by (induction ls arbitrary: a b) (auto simp: Let_def)

lemma map_radius_updateLinks [simp]: "map radius (updateLinks d m a b ls) = map radius ls"
  by (induction ls arbitrary: a b) (auto simp: Let_def)

lemma updateLinks_cong:
  assumes "map pos ls' = map pos ls" "map radius ls' = map radius ls"
    "pos a' = pos a" "pos b' = pos b"
  shows "updateLinks d m a' b' ls' = updateLinks d m a b ls"
  using assms
proof (induction ls arbitrary: ls' a b a' b')
  case Nil
  then show ?case by simp
next
  case (Cons l ls)
  then obtain l' ls'' where ls': "ls' = l' # ls''" by (cases ls') auto
  with Cons.prems have e: "pos l' = pos l" "radius l' = radius l"
    "map pos ls'' = map pos ls" "map radius ls'' = map radius ls" by auto
  have u: "ChainLink_update l' b' d a' m = ChainLink_update l b d a m"
    by (rule ChainLink_update_cong) (use e Cons.prems in auto)
  show ?case
    unfolding ls' using u Cons.IH[OF e(3,4) Cons.prems(4), of "ChainLink_update l b d a m" "ChainLink_update l b d a m"]
    by (simp add: Let_def)
qed

lemma updateLinks_pos_idem:
  assumes m: "0 \<le> m" "m \<le> 180" and d: "0 < d"
    and eq: "pos a' = pos a" "pos b' = pos b"
  shows "map pos (updateLinks d m a' b' (updateLinks d m a b ls)) = map pos (updateLinks d m a b ls)"
  using eq
proof (induction ls arbitrary: a b a' b')
  case Nil
  then show ?case by simp
next
  case (Cons l ls)
  let ?l1 = "ChainLink_update l b d a m"
  let ?l2 = "ChainLink_update ?l1 b' d a' m"
  have p: "pos ?l2 = pos ?l1"
    by (rule ChainLink_update_pos_idem[OF m d Cons.prems(2,1)])
  show ?case
    using p Cons.IH[OF Cons.prems(2) p] by (simp add: Let_def)
qed


lemma BodyBase_update_Cons:
  assumes "chainLinks b = link1 # link2 # links"
  shows "BodyBase_update headPos b =
           Inr (b\<lparr>chainLinks := updatedChain headPos (spacing b * body_scale b) (maxAngle b) link1 link2 links,
                  totalCurvature := getTotalCurvature
                    (b\<lparr>chainLinks := updatedChain headPos (spacing b * body_scale b) (maxAngle b) link1 link2 links\<rparr>)\<rparr>)"
  using assms by (simp add: BodyBase_update_def updatedChain_def Let_def)

lemma getTotalCurvature_cong:
  "maxAngle b' = maxAngle b \<Longrightarrow> chainLinks b' = chainLinks b \<Longrightarrow> getTotalCurvature b' = getTotalCurvature b"
  by (simp add: getTotalCurvature_def)

lemma updatedChain_again:
  assumes m: "0 \<le> m" "m \<le> 180" and d: "0 < d"
    and c: "updatedChain p d m l1 l2 ls = k1 # k2 # ks"
  shows "\<exists>ks'. updatedChain p d m k1 k2 ks = k1 # k2 # ks' \<and> map pos ks' = map pos ks
            \<and> map radius ks' = map radius ks"
proof -
  let ?t = "angle (sub (pos l2) p)"
  have k1: "k1 = l1\<lparr>pos := p, directionAngle := ?t\<rparr>"
    and k2: "k2 = l2\<lparr>pos := addPolar p d ?t, directionAngle := ?t\<rparr>"
    and ks: "ks = updateLinks d m k1 k2 ls"
    using c by (auto simp: updatedChain_def)
  have tr: "- pi < ?t" "?t \<le> pi" using angle_range by auto
  have t: "angle (sub (pos k2) p) = ?t"
    unfolding k2 by (simp add: angle_addPolar atan2_polar_id[OF d tr])
  have k1': "k1\<lparr>pos := p, directionAngle := ?t\<rparr> = k1" unfolding k1 by simp
  have k2': "k2\<lparr>pos := addPolar p d ?t, directionAngle := ?t\<rparr> = k2" unfolding k2 by simp
  have "updatedChain p d m k1 k2 ks = k1 # k2 # updateLinks d m k1 k2 ks"
    unfolding updatedChain_def t k1' k2' ..
  moreover have "map pos (updateLinks d m k1 k2 ks) = map pos ks"
    unfolding ks by (rule updateLinks_pos_idem[OF m d]) auto
  ultimately show ?thesis by simp
qed

text \<open>
  C3 (as amended). For a chain of at least two links, a positive link distance
  \<open>spacing * scale\<close>, \<open>maxAngle\<close> in \<open>[0, 180]\<close> and every head position, a second call of
  \<open>update\<close> with the same head position leaves the position and the radius of every link and
  the whole of the first two links as the first call left them, and from the second call on a
  further call changes nothing at all. (The direction angle of a link from index 2 on is
  the direction the link had before the call moved it; the second call replaces it by the
  direction after the clamp, and \<open>totalCurvature\<close> follows.)
\<close>

theorem BodyBase_update_twice:
  assumes len: "2 \<le> length (chainLinks b)"
    and d: "0 < spacing b * body_scale b"
    and m: "0 \<le> maxAngle b" "maxAngle b \<le> 180"
  shows "\<exists>b1 b2. BodyBase_update headPos b = Inr b1 \<and> BodyBase_update headPos b1 = Inr b2 \<and>
           map pos (chainLinks b2) = map pos (chainLinks b1) \<and>
           map radius (chainLinks b2) = map radius (chainLinks b1) \<and>
           take 2 (chainLinks b2) = take 2 (chainLinks b1) \<and>
           BodyBase_update headPos b2 = Inr b2"
proof -
  let ?d = "spacing b * body_scale b"
  let ?m = "maxAngle b"
  obtain l1 l2 ls where c0: "chainLinks b = l1 # l2 # ls"
    using len by (cases "chainLinks b"; cases "tl (chainLinks b)") auto
  obtain k1 k2 ks where c1: "updatedChain headPos ?d ?m l1 l2 ls = k1 # k2 # ks"
    by (simp add: updatedChain_def)
  define b1 where "b1 = b\<lparr>chainLinks := k1 # k2 # ks,
                          totalCurvature := getTotalCurvature (b\<lparr>chainLinks := k1 # k2 # ks\<rparr>)\<rparr>"
  have u1: "BodyBase_update headPos b = Inr b1"
    unfolding b1_def BodyBase_update_Cons[OF c0] c1 ..
  have f1: "chainLinks b1 = k1 # k2 # ks" "spacing b1 = spacing b" "body_scale b1 = body_scale b"
    "maxAngle b1 = maxAngle b"
    by (simp_all add: b1_def)
  obtain ks' where c2: "updatedChain headPos ?d ?m k1 k2 ks = k1 # k2 # ks'"
    and e2: "map pos ks' = map pos ks" "map radius ks' = map radius ks"
    using updatedChain_again[OF m d c1] by blast
  define b2 where "b2 = b1\<lparr>chainLinks := k1 # k2 # ks',
                          totalCurvature := getTotalCurvature (b1\<lparr>chainLinks := k1 # k2 # ks'\<rparr>)\<rparr>"
  have u2: "BodyBase_update headPos b1 = Inr b2"
    unfolding b2_def BodyBase_update_Cons[OF f1(1)] f1 c2 ..
  have f2: "chainLinks b2 = k1 # k2 # ks'" "spacing b2 = spacing b" "body_scale b2 = body_scale b"
    "maxAngle b2 = maxAngle b"
    by (simp_all add: b2_def f1)
  obtain ks'' where c3: "updatedChain headPos ?d ?m k1 k2 ks' = k1 # k2 # ks''"
    using updatedChain_again[OF m d c2] by blast
  have "ks'' = updateLinks ?d ?m k1 k2 ks'" "ks' = updateLinks ?d ?m k1 k2 ks"
    using c3 c2 updatedChain_again[OF m d c1] updatedChain_again[OF m d c2]
    by (auto simp: updatedChain_def)
  then have same: "ks'' = ks'"
    using updateLinks_cong[OF e2, of k1 k1 k2 k2 ?d ?m] by simp
  have u3: "BodyBase_update headPos b2 = Inr b2"
    unfolding BodyBase_update_Cons[OF f2(1)] f2 c3 same
    by (simp add: b2_def getTotalCurvature_def)
  show ?thesis
    using u1 u2 u3 e2 by (auto simp: f1 f2)
qed

lemma arctan_sqrt3: "arctan (sqrt 3) = pi / 3"
proof (rule arctan_unique)
  show "- (pi / 2) < pi / 3" using pi_gt_zero by linarith
  show "pi / 3 < pi / 2" using pi_gt_zero by linarith
  show "tan (pi / 3) = sqrt 3" by (rule tan_60)
qed

lemma atan2_values:
  "atan2 (5 * sqrt 3) 5 = pi / 3" "atan2 10 0 = pi / 2" "atan2 0 10 = 0" "atan2 0 (- 10) = pi"
  by (simp_all add: atan2_def arctan_sqrt3)

lemma pi_compare:
  "\<not> pi < - (pi / 2)" "\<not> pi < - (2 * pi / 3)" "\<not> 2 * pi / 3 \<le> pi / 2"
  "- (2 * pi / 3) + pi = pi / 3" "\<not> pi * 2 \<le> pi" "\<not> pi * 4 \<le> pi * 3"
  using pi_gt_zero by linarith+

lemma BodyBase_new_three_links:
  "BodyBase_new [10, 10, 10] 10 60 Zero 1 =
     \<lparr>chainLinks =
        [\<lparr>radius = 10, pos = \<lparr>vx = 0, vy = 0\<rparr>, directionAngle = - pi / 2\<rparr>,
         \<lparr>radius = 10, pos = \<lparr>vx = 0, vy = 10\<rparr>, directionAngle = - pi / 2\<rparr>,
         \<lparr>radius = 10, pos = \<lparr>vx = 0, vy = 20\<rparr>, directionAngle = - pi / 2\<rparr>],
      spacing = 10, maxAngle = 60, totalCurvature = Fin 0, body_scale = 1\<rparr>"
  by (simp add: BodyBase_new_def ChainLink_new_def Zero_def upt_rec)

theorem BodyBase_update_twice_witness:
  "2 \<le> length (chainLinks (BodyBase_new [10, 10, 10] 10 60 Zero 1)) \<and>
   0 < spacing (BodyBase_new [10, 10, 10] 10 60 Zero 1)
         * body_scale (BodyBase_new [10, 10, 10] 10 60 Zero 1) \<and>
   0 \<le> maxAngle (BodyBase_new [10, 10, 10] 10 60 Zero 1) \<and>
   maxAngle (BodyBase_new [10, 10, 10] 10 60 Zero 1) \<le> 180 \<and>
   (\<exists>b1 b2.
      BodyBase_update \<lparr>vx = - 10, vy = 10\<rparr> (BodyBase_new [10, 10, 10] 10 60 Zero 1) = Inr b1 \<and>
      BodyBase_update \<lparr>vx = - 10, vy = 10\<rparr> b1 = Inr b2 \<and>
      map pos (chainLinks b2) = map pos (chainLinks b1) \<and>
      map radius (chainLinks b2) = map radius (chainLinks b1) \<and>
      take 2 (chainLinks b2) = take 2 (chainLinks b1) \<and>
      BodyBase_update \<lparr>vx = - 10, vy = 10\<rparr> b2 = Inr b2)"
proof -
  have h: "2 \<le> length (chainLinks (BodyBase_new [10, 10, 10] 10 60 Zero 1))"
    "0 < spacing (BodyBase_new [10, 10, 10] 10 60 Zero 1)
           * body_scale (BodyBase_new [10, 10, 10] 10 60 Zero 1)"
    "0 \<le> maxAngle (BodyBase_new [10, 10, 10] 10 60 Zero 1)"
    "maxAngle (BodyBase_new [10, 10, 10] 10 60 Zero 1) \<le> 180"
    by (simp_all add: BodyBase_new_three_links)
  show ?thesis
    using h BodyBase_update_twice[OF h, of "\<lparr>vx = - 10, vy = 10\<rparr>"] by blast
qed

text \<open>
  C3 as stated fails for the direction angles. The body built from the radii \<open>[10, 10, 10]\<close>
  with spacing \<open>10\<close> and \<open>maxAngle = 60\<close> at \<open>(0, 0)\<close> is updated twice with the head position
  \<open>(-10, 10)\<close>. The first call moves the third link from \<open>(0, 20)\<close> to \<open>(5, 10 + 5\<surd>3)\<close> and
  stores the direction \<open>\<pi>/2\<close> it had before; the second call stores \<open>\<pi>/3\<close>.
\<close>

theorem BodyBase_update_twice_counterexample:
  "BodyBase_update \<lparr>vx = - 10, vy = 10\<rparr> (BodyBase_new [10, 10, 10] 10 60 Zero 1)
   = Inr \<lparr>chainLinks =
        [\<lparr>radius = 10, pos = \<lparr>vx = - 10, vy = 10\<rparr>, directionAngle = 0\<rparr>,
         \<lparr>radius = 10, pos = \<lparr>vx = 0, vy = 10\<rparr>, directionAngle = 0\<rparr>,
         \<lparr>radius = 10, pos = \<lparr>vx = 5, vy = 10 + 5 * sqrt 3\<rparr>, directionAngle = pi / 2\<rparr>],
      spacing = 10, maxAngle = 60, totalCurvature = Fin 1, body_scale = 1\<rparr> \<and>
   BodyBase_update \<lparr>vx = - 10, vy = 10\<rparr>
     \<lparr>chainLinks =
        [\<lparr>radius = 10, pos = \<lparr>vx = - 10, vy = 10\<rparr>, directionAngle = 0\<rparr>,
         \<lparr>radius = 10, pos = \<lparr>vx = 0, vy = 10\<rparr>, directionAngle = 0\<rparr>,
         \<lparr>radius = 10, pos = \<lparr>vx = 5, vy = 10 + 5 * sqrt 3\<rparr>, directionAngle = pi / 2\<rparr>],
      spacing = 10, maxAngle = 60, totalCurvature = Fin 1, body_scale = 1\<rparr>
   = Inr \<lparr>chainLinks =
        [\<lparr>radius = 10, pos = \<lparr>vx = - 10, vy = 10\<rparr>, directionAngle = 0\<rparr>,
         \<lparr>radius = 10, pos = \<lparr>vx = 0, vy = 10\<rparr>, directionAngle = 0\<rparr>,
         \<lparr>radius = 10, pos = \<lparr>vx = 5, vy = 10 + 5 * sqrt 3\<rparr>, directionAngle = pi / 3\<rparr>],
      spacing = 10, maxAngle = 60, totalCurvature = Fin 1, body_scale = 1\<rparr> \<and>
   pi / 2 \<noteq> pi / 3"
  unfolding BodyBase_new_three_links
  by (simp add: BodyBase_update_def Let_def sub_def angle_def atan2_values addPolar_def
        ChainLink_update_def wrapAngle_def getTotalCurvature_def pi_compare cos_60 sin_60)

section \<open>The angle clamp along the chain\<close>

text \<open>
  \<open>BodyBase.update\<close> resolves the links in order, and a link that has been resolved is not
  moved again in the same call: the bound holds for every link of the updated chain from
  index 2 on, against the two links before it.
\<close>

lemma degrees_of_rad:
  assumes "((180 - m) * pi) / 180 \<le> \<bar>t\<bar>"
  shows "180 - m \<le> \<bar>t\<bar> * 180 / pi"
proof -
  have "((180 - m) * pi) / 180 * (180 / pi) \<le> \<bar>t\<bar> * (180 / pi)"
    using assms pi_gt_zero by (intro mult_right_mono) auto
  moreover have "((180 - m) * pi) / 180 * (180 / pi) = 180 - m"
    using pi_gt_zero by simp
  ultimately show ?thesis by simp
qed

lemma ChainLink_update_outsideCone:
  assumes "0 \<le> maxAng" "maxAng \<le> 180" "0 < dst"
  shows "outsideCone maxAng ac dc (ChainLink_update this dc dst ac maxAng)"
  unfolding outsideCone_def
  by (rule degrees_of_rad[OF ChainLink_update_cone_rad[OF assms]])

lemma updateLinks_chainOutsideCone:
  assumes "0 \<le> maxAng" "maxAng \<le> 180" "0 < dst"
  shows "chainOutsideCone maxAng prev2 prev1 (updateLinks dst maxAng prev2 prev1 links)"
proof (induction links arbitrary: prev2 prev1)
  case Nil
  then show ?case by simp
next
  case (Cons link links)
  show ?case
    using ChainLink_update_outsideCone[OF assms, of prev2 prev1 link] Cons.IH
    by (simp add: Let_def)
qed

lemma BodyBase_update_chainOutsideCone:
  assumes "0 \<le> maxAngle b" "maxAngle b \<le> 180" "0 < spacing b * body_scale b"
    and "BodyBase_update headPos b = Inr b'"
  shows "\<exists>link1 link2 links. chainLinks b' = link1 # link2 # links \<and>
           chainOutsideCone (maxAngle b) link1 link2 links"
proof -
  obtain l1 l2 ls where c0: "chainLinks b = l1 # l2 # ls"
    using assms(4) by (auto simp: BodyBase_update_def split: list.splits)
  have "chainLinks b' = updatedChain headPos (spacing b * body_scale b) (maxAngle b) l1 l2 ls"
    using assms(4) unfolding BodyBase_update_Cons[OF c0] by auto
  then show ?thesis
    using updateLinks_chainOutsideCone[OF assms(1,2,3)]
    by (simp add: updatedChain_def)
qed

section \<open>The range of getTotalCurvature\<close>

lemma getTotalCurvature_two_links:
  "length (chainLinks b) = 2 \<Longrightarrow> getTotalCurvature b = NaN"
  by (cases "chainLinks b"; cases "tl (chainLinks b)") (auto simp: getTotalCurvature_def)

lemma getTotalCurvature_range:
  assumes "maxAngle b * (real (length (chainLinks b)) - 2) \<noteq> 0"
  shows "\<exists>r. getTotalCurvature b = Fin r \<and> - 1 \<le> r \<and> r \<le> 1"
  using assms by (simp add: getTotalCurvature_def Let_def)

lemma getTotalCurvature_long_chain:
  assumes "3 \<le> length (chainLinks b)" "0 < maxAngle b"
  shows "\<exists>r. getTotalCurvature b = Fin r \<and> - 1 \<le> r \<and> r \<le> 1"
  using assms by (intro getTotalCurvature_range) auto

text \<open>
  C4. The constructor pads a radius profile to two links, and for a chain of two links
  \<open>maxCurvature\<close> is \<open>maxAngle * 0\<close> and the loop adds nothing: \<open>getTotalCurvature\<close> returns
  \<open>0 / 0\<close>. The body built from the radii \<open>[10, 10]\<close> has the curvature \<open>NaN\<close>, before and after
  an update to the head position \<open>(100, 0)\<close>.
\<close>

theorem getTotalCurvature_two_links_NaN:
  "getTotalCurvature (BodyBase_new [10, 10] 10 30 Zero 1) = NaN \<and>
   (case BodyBase_update \<lparr>vx = 100, vy = 0\<rparr> (BodyBase_new [10, 10] 10 30 Zero 1) of
      Inl e \<Rightarrow> False
    | Inr b \<Rightarrow> totalCurvature b = NaN \<and> getTotalCurvature b = NaN)"
  by (simp add: BodyBase_new_def BodyBase_update_def getTotalCurvature_def Let_def upt_rec
        ChainLink_new_def Zero_def)


section \<open>Circle intersection\<close>

lemma circle_point:
  fixes a h u w :: real
  assumes "u * u + w * w = 1"
  shows "(a * u + h * w) * (a * u + h * w) + (a * w - h * u) * (a * w - h * u) = a * a + h * h"
proof -
  have "(a * u + h * w) * (a * u + h * w) + (a * w - h * u) * (a * w - h * u)
        = (a * a + h * h) * (u * u + w * w)"
    by (simp add: algebra_simps)
  then show ?thesis using assms by simp
qed

lemma circle_point':
  fixes a h u w :: real
  assumes "u * u + w * w = 1"
  shows "(a * u - h * w) * (a * u - h * w) + (a * w + h * u) * (a * w + h * u) = a * a + h * h"
  using circle_point[OF assms, of a "- h"] by simp

lemma unit_dir:
  fixes dx dy :: real
  assumes "d = sqrt (dx * dx + dy * dy)" "d \<noteq> 0"
  shows "(dx / d) * (dx / d) + (dy / d) * (dy / d) = 1"
proof -
  have dd: "d * d = dx * dx + dy * dy"
    using assms(1) by simp
  have "(dx / d) * (dx / d) + (dy / d) * (dy / d) = (dx * dx + dy * dy) / (d * d)"
    by (simp add: add_divide_distrib)
  also have "\<dots> = (d * d) / (d * d)" by (simp only: dd)
  also have "\<dots> = 1" using assms(2) by simp
  finally show ?thesis .
qed

lemma h_arg_nonneg:
  fixes r1 r2 d :: real
  assumes "0 < d" "\<not> d > r1 + r2" "\<not> d < \<bar>r1 - r2\<bar>"
  shows "0 \<le> r1 * r1 - ((r1 * r1 - r2 * r2 + d * d) / (2 * d)) * ((r1 * r1 - r2 * r2 + d * d) / (2 * d))"
proof -
  let ?a = "(r1 * r1 - r2 * r2 + d * d) / (2 * d)"
  have 1: "r1 + ?a = (d + r1 - r2) * (d + r1 + r2) / (2 * d)"
    using assms(1) by (simp add: field_simps)
  have 2: "r1 - ?a = (r2 - d + r1) * (r2 + d - r1) / (2 * d)"
    using assms(1) by (simp add: field_simps)
  have "0 \<le> (d + r1 - r2) * (d + r1 + r2)" using assms by (intro mult_nonneg_nonneg) auto
  then have p1: "0 \<le> r1 + ?a" unfolding 1 using assms(1) by simp
  have "0 \<le> (r2 - d + r1) * (r2 + d - r1)" using assms by (intro mult_nonneg_nonneg) auto
  then have p2: "0 \<le> r1 - ?a" unfolding 2 using assms(1) by simp
  have "r1 * r1 - ?a * ?a = (r1 - ?a) * (r1 + ?a)" by (simp add: algebra_simps)
  then show ?thesis using p1 p2 by simp
qed


lemma getIntercectionPoint_empty_iff:
  "getIntercectionPoint p1 p2 r1 r2 = [] \<longleftrightarrow>
     distance p2 p1 > r1 + r2 \<or> distance p2 p1 < \<bar>r1 - r2\<bar>"
  by (simp add: getIntercectionPoint_def Let_def distance_def)

lemma getIntercectionPoint_length:
  "length (getIntercectionPoint p1 p2 r1 r2) =
     (if distance p2 p1 > r1 + r2 \<or> distance p2 p1 < \<bar>r1 - r2\<bar> then 0 else 2)"
  by (simp add: getIntercectionPoint_def Let_def distance_def)

lemma distance_commute: "distance p q = distance q p"
  by (simp add: distance_def algebra_simps power2_eq_square[symmetric] power2_commute)

lemma distance_zero_iff: "distance p q = 0 \<longleftrightarrow> p = q"
proof -
  have "(vx p - vx q) * (vx p - vx q) + (vy p - vy q) * (vy p - vy q) = 0
        \<longleftrightarrow> vx p = vx q \<and> vy p = vy q"
    using sum_power2_eq_zero_iff[of "vx p - vx q" "vy p - vy q"] by (simp add: power2_eq_square)
  moreover have "(vx p = vx q \<and> vy p = vy q) \<longleftrightarrow> p = q"
    by (cases p; cases q) auto
  ultimately show ?thesis by (simp add: distance_def)
qed

lemma getIntercectionPoint_on_circles:
  assumes r: "0 \<le> r1" "0 \<le> r2" and ne: "p1 \<noteq> p2"
    and g: "\<not> distance p2 p1 > r1 + r2" "\<not> distance p2 p1 < \<bar>r1 - r2\<bar>"
  shows "\<exists>q1 q2. getIntercectionPoint p1 p2 r1 r2 = [Fin q1, Fin q2] \<and>
           distance q1 p1 = r1 \<and> distance q1 p2 = r2 \<and>
           distance q2 p1 = r1 \<and> distance q2 p2 = r2"
proof -
  define dx dy where "dx = vx p2 - vx p1" and "dy = vy p2 - vy p1"
  define d where "d = sqrt (dx * dx + dy * dy)"
  have dd: "d = distance p2 p1" by (simp add: d_def dx_def dy_def distance_def)
  have d0: "d \<noteq> 0" using ne distance_zero_iff[of p2 p1] dd by auto
  have dpos: "0 < d" using d0 by (simp add: d_def less_le)
  define u w where "u = dx / d" and "w = dy / d"
  have uw: "u * u + w * w = 1" unfolding u_def w_def by (rule unit_dir[OF d_def d0])
  define a where "a = (r1 * r1 - r2 * r2 + d * d) / (2 * d)"
  define h where "h = sqrt (r1 * r1 - a * a)"
  have hn: "0 \<le> r1 * r1 - a * a"
    unfolding a_def using h_arg_nonneg[OF dpos] g dd by simp
  have hh: "h * h = r1 * r1 - a * a" unfolding h_def using hn by simp
  define q1 where "q1 = \<lparr>vx = vx p1 + a * u + h * w, vy = vy p1 + a * w - h * u\<rparr>"
  define q2 where "q2 = \<lparr>vx = vx p1 + a * u - h * w, vy = vy p1 + a * w + h * u\<rparr>"
  have res: "getIntercectionPoint p1 p2 r1 r2 = [Fin q1, Fin q2]"
    using g d0 dd
    by (simp add: getIntercectionPoint_def Let_def q1_def q2_def u_def w_def a_def h_def
          d_def dx_def dy_def distance_def)
  have ah: "a * a + h * h = r1 * r1" using hh by simp
  have adh: "(a - d) * (a - d) + h * h = r2 * r2"
  proof -
    have "2 * d * a = r1 * r1 - r2 * r2 + d * d" unfolding a_def using d0 by simp
    then show ?thesis using hh by (simp add: algebra_simps)
  qed
  have x2: "vx p2 = vx p1 + d * u" "vy p2 = vy p1 + d * w"
    using d0 by (simp_all add: u_def w_def dx_def dy_def)
  have "distance q1 p1 = sqrt ((a * u + h * w) * (a * u + h * w) + (a * w - h * u) * (a * w - h * u))"
    by (simp add: distance_def q1_def algebra_simps)
  then have a1: "distance q1 p1 = r1"
    unfolding circle_point[OF uw] ah using r by simp
  have "distance q2 p1 = sqrt ((a * u - h * w) * (a * u - h * w) + (a * w + h * u) * (a * w + h * u))"
    by (simp add: distance_def q2_def algebra_simps)
  then have a2: "distance q2 p1 = r1"
    unfolding circle_point'[OF uw] ah using r by simp
  have "distance q1 p2 = sqrt (((a - d) * u + h * w) * ((a - d) * u + h * w)
                               + ((a - d) * w - h * u) * ((a - d) * w - h * u))"
    by (simp add: distance_def q1_def x2 algebra_simps)
  then have a3: "distance q1 p2 = r2"
    unfolding circle_point[OF uw] adh using r by simp
  have "distance q2 p2 = sqrt (((a - d) * u - h * w) * ((a - d) * u - h * w)
                               + ((a - d) * w + h * u) * ((a - d) * w + h * u))"
    by (simp add: distance_def q2_def x2 algebra_simps)
  then have a4: "distance q2 p2 = r2"
    unfolding circle_point'[OF uw] adh using r by simp
  show ?thesis using res a1 a2 a3 a4 by blast
qed


lemma getIntercectionPoint_crossing:
  assumes "p1 \<noteq> p2" "\<not> distance p2 p1 > r1 + r2" "\<not> distance p2 p1 < \<bar>r1 - r2\<bar>"
  shows "getIntercectionPoint p1 p2 r1 r2 =
           [Fin (crossing p1 p2 r1 r2 1), Fin (crossing p1 p2 r1 r2 (- 1))]"
proof -
  have "distance p2 p1 \<noteq> 0" using assms(1) distance_zero_iff[of p2 p1] by auto
  then show ?thesis
    using assms(2,3)
    by (simp add: getIntercectionPoint_def crossing_def Let_def distance_def)
qed

lemma crossing_swap:
  assumes ne: "p1 \<noteq> p2"
  shows "crossing p2 p1 r2 r1 sg = crossing p1 p2 r1 r2 (- sg)"
proof -
  define d where "d = distance p2 p1"
  have d': "distance p1 p2 = d" unfolding d_def by (rule distance_commute)
  have d0: "d \<noteq> 0" using ne distance_zero_iff[of p2 p1] d_def by auto
  define u w where "u = (vx p2 - vx p1) / d" and "w = (vy p2 - vy p1) / d"
  have u': "(vx p1 - vx p2) / d = - u" "(vy p1 - vy p2) / d = - w"
    unfolding u_def w_def by (simp_all add: minus_divide_left)
  define a where "a = (r1 * r1 - r2 * r2 + d * d) / (2 * d)"
  have a': "(r2 * r2 - r1 * r1 + d * d) / (2 * d) = d - a"
    unfolding a_def using d0 by (simp add: field_simps)
  have harg: "r2 * r2 - (d - a) * (d - a) = r1 * r1 - a * a"
  proof -
    have "2 * d * a = r1 * r1 - r2 * r2 + d * d" unfolding a_def using d0 by simp
    then show ?thesis by (simp add: algebra_simps)
  qed
  define h where "h = sqrt (r1 * r1 - a * a)"
  have x2: "vx p2 = vx p1 + d * u" "vy p2 = vy p1 + d * w"
    using d0 by (simp_all add: u_def w_def)
  have l: "crossing p2 p1 r2 r1 sg =
             \<lparr>vx = vx p2 + (d - a) * (- u) + sg * h * (- w),
               vy = vy p2 + (d - a) * (- w) - sg * h * (- u)\<rparr>"
    unfolding crossing_def Let_def d' u' a' harg h_def ..
  have r: "crossing p1 p2 r1 r2 (- sg) =
             \<lparr>vx = vx p1 + a * u + (- sg) * h * w, vy = vy p1 + a * w - (- sg) * h * u\<rparr>"
    unfolding crossing_def Let_def d_def[symmetric] u_def[symmetric] w_def[symmetric]
      a_def[symmetric] h_def[symmetric] ..
  show ?thesis unfolding l r by (simp add: x2 algebra_simps)
qed

lemma getIntercectionPoint_symmetric:
  "getIntercectionPoint p2 p1 r2 r1 = rev (getIntercectionPoint p1 p2 r1 r2)"
proof (cases "p1 = p2")
  case True
  then show ?thesis by (simp add: getIntercectionPoint_def Let_def abs_minus_commute add.commute)
next
  case False
  show ?thesis
  proof (cases "distance p2 p1 > r1 + r2 \<or> distance p2 p1 < \<bar>r1 - r2\<bar>")
    case True
    then have "getIntercectionPoint p1 p2 r1 r2 = []"
      by (simp add: getIntercectionPoint_empty_iff)
    moreover have "getIntercectionPoint p2 p1 r2 r1 = []"
      using True by (simp add: getIntercectionPoint_empty_iff distance_commute[of p1 p2]
           abs_minus_commute add.commute)
    ultimately show ?thesis by simp
  next
    case g: False
    then have g1: "\<not> distance p2 p1 > r1 + r2" "\<not> distance p2 p1 < \<bar>r1 - r2\<bar>" by auto
    then have g2: "\<not> distance p1 p2 > r2 + r1" "\<not> distance p1 p2 < \<bar>r2 - r1\<bar>"
      by (simp_all add: distance_commute[of p1 p2] abs_minus_commute add.commute)
    have ne: "p2 \<noteq> p1" using False by simp
    show ?thesis
      unfolding getIntercectionPoint_crossing[OF False g1] getIntercectionPoint_crossing[OF ne g2]
      by (simp add: crossing_swap[OF False])
  qed
qed

lemma getIntercectionPoint_same_circle:
  "0 \<le> r \<Longrightarrow> getIntercectionPoint p p r r = [NaN, NaN]"
  by (simp add: getIntercectionPoint_def)

text \<open>
  C2. For circles with different centres the claim holds: the result is empty exactly when
  \<open>d > r1 + r2\<close> or \<open>d < |r1 - r2|\<close> (\<open>getIntercectionPoint_empty_iff\<close>), otherwise it has two
  points, each on both circles (\<open>getIntercectionPoint_on_circles\<close>), and swapping the circles
  swaps the two points (\<open>getIntercectionPoint_symmetric\<close>). For two circles with the same
  centre and the same radius the source divides \<open>0\<close> by \<open>0\<close>: the two vectors returned are
  \<open>NaN\<close> and lie on no circle.
\<close>

theorem getIntercectionPoint_coincident_NaN:
  "getIntercectionPoint \<lparr>vx = 0, vy = 0\<rparr> \<lparr>vx = 0, vy = 0\<rparr> 1 1 = [NaN, NaN]"
  by (simp add: getIntercectionPoint_def)


section \<open>The latch of Leg3Joint\<close>

lemma Leg3Joint_update_stuck:
  assumes "sticked leg" "\<not> footExceeds link leg"
  shows "sticked (Leg3Joint_update link leg) \<and> joints2 (Leg3Joint_update link leg) = joints2 leg"
  using assms by (simp add: Leg3Joint_update_def footExceeds_def Let_def)

text \<open>
  C7. A leg is stuck, its parent link is at rest, and at none of the first \<open>n\<close> calls of
  \<open>update()\<close> does the distance from the foot to the target point exceed
  \<open>maxDifference * scale\<close>. Then after each of these calls the leg is still stuck and the foot
  \<open>joints[2]\<close> is where it was at the start.
\<close>

theorem Leg3Joint_stays_sticked:
  assumes "sticked leg"
    and "\<forall>k<n. \<not> footExceeds link (Leg3Joint_updates k link leg)"
  shows "\<forall>k\<le>n. sticked (Leg3Joint_updates k link leg) \<and>
                joints2 (Leg3Joint_updates k link leg) = joints2 leg"
proof (intro allI impI)
  fix k assume "k \<le> n"
  then have "\<forall>j<k. \<not> footExceeds link (Leg3Joint_updates j link leg)"
    using assms(2) by auto
  then show "sticked (Leg3Joint_updates k link leg) \<and>
             joints2 (Leg3Joint_updates k link leg) = joints2 leg"
  proof (induction k)
    case 0
    then show ?case using assms(1) by simp
  next
    case (Suc k)
    then have ih: "sticked (Leg3Joint_updates k link leg)"
      "joints2 (Leg3Joint_updates k link leg) = joints2 leg" by auto
    have "\<not> footExceeds link (Leg3Joint_updates k link leg)" using Suc.prems by auto
    from Leg3Joint_update_stuck[OF ih(1) this] show ?case using ih(2) by simp
  qed
qed

theorem Leg3Joint_stays_sticked_witness:
  "sticked leg0 \<and> \<not> footExceeds link0 (Leg3Joint_updates 0 link0 leg0) \<and>
   \<not> footExceeds link0 (Leg3Joint_updates 1 link0 leg0) \<and>
   sticked (Leg3Joint_updates 2 link0 leg0) \<and>
   joints2 (Leg3Joint_updates 2 link0 leg0) = Fin \<lparr>vx = 1, vy = 1\<rparr>"
proof -
  have a: "\<not> footExceeds link0 (Leg3Joint_updates 0 link0 leg0)"
    by (simp add: footExceeds_def evalTargetPoint_def Let_def addPolar_def distance_def js_gt_def)
  have b: "\<not> footExceeds link0 (Leg3Joint_updates 1 link0 leg0)"
    by (simp add: footExceeds_def evalTargetPoint_def Let_def addPolar_def distance_def js_gt_def
     Leg3Joint_update_def evalConnPoint_def)
  have h: "\<forall>k<2. \<not> footExceeds link0 (Leg3Joint_updates k link0 leg0)"
    using a b by (auto simp: less_Suc_eq numeral_2_eq_2)
  have s: "sticked leg0" by simp
  show ?thesis
    using Leg3Joint_stays_sticked[OF s h] a b by simp
qed


section \<open>The capacity of RipplesManager\<close>

lemma length_removeFirst: "length (removeFirst i rs) \<le> length rs"
  by (induction rs) auto

lemma maxRipples_runCall [simp]: "maxRipples (runCall m c) = maxRipples m"
  by (cases c) (auto simp: addPoint_def removePoint_def Let_def)

lemma length_points_runCall:
  assumes "length (points m) \<le> maxRipples m"
  shows "length (points (runCall m c)) \<le> maxRipples m"
proof (cases c)
  case (AddPoint now point)
  then show ?thesis using assms by (auto simp: addPoint_def Let_def)
next
  case (RemovePoint arrInstance)
  then show ?thesis
    using assms length_removeFirst[of "ident arrInstance" "points m"]
    by (simp add: removePoint_def)
qed

lemma runCalls_invariant:
  assumes "length (points m) \<le> maxRipples m"
  shows "length (points (runCalls calls m)) \<le> maxRipples m \<and> maxRipples (runCalls calls m) = maxRipples m"
  unfolding runCalls_def using assms
proof (induction calls arbitrary: m)
  case Nil
  then show ?case by simp
next
  case (Cons c calls)
  have "length (points (runCall m c)) \<le> maxRipples (runCall m c)"
    using length_points_runCall[OF Cons.prems] by simp
  from Cons.IH[OF this] show ?case by simp
qed

lemma addPoint_full: "maxRipples m \<le> length (points m) \<Longrightarrow> addPoint now point m = m"
  by (simp add: addPoint_def)

text \<open>
  C8. After every sequence of \<open>addPoint\<close> and \<open>removePoint\<close> calls on a new manager the
  collection holds at most \<open>maxRipples\<close> points, and when it holds \<open>maxRipples\<close> points a call
  of \<open>addPoint\<close> leaves the manager as it is.
\<close>

theorem RipplesManager_capacity:
  "length (points (runCalls calls (RipplesManager_new maxR dly))) \<le> maxR \<and>
   (maxR \<le> length (points (runCalls calls (RipplesManager_new maxR dly))) \<longrightarrow>
      addPoint now point (runCalls calls (RipplesManager_new maxR dly))
        = runCalls calls (RipplesManager_new maxR dly))"
proof -
  have "length (points (RipplesManager_new maxR dly)) \<le> maxRipples (RipplesManager_new maxR dly)"
    by (simp add: RipplesManager_new_def)
  from runCalls_invariant[OF this, of calls]
  have a: "length (points (runCalls calls (RipplesManager_new maxR dly))) \<le> maxR"
    and b: "maxRipples (runCalls calls (RipplesManager_new maxR dly)) = maxR"
    by (simp_all add: RipplesManager_new_def)
  show ?thesis using a b addPoint_full[of "runCalls calls (RipplesManager_new maxR dly)"] by simp
qed

theorem RipplesManager_capacity_witness:
  "(1::nat) \<le> length (points (runCalls [AddPoint 0 \<lparr>vx = 3, vy = 4\<rparr>] (RipplesManager_new 1 600))) \<and>
   length (points (runCalls [AddPoint 0 \<lparr>vx = 3, vy = 4\<rparr>] (RipplesManager_new 1 600))) \<le> 1 \<and>
   addPoint 5 \<lparr>vx = 7, vy = 7\<rparr> (runCalls [AddPoint 0 \<lparr>vx = 3, vy = 4\<rparr>] (RipplesManager_new 1 600))
     = runCalls [AddPoint 0 \<lparr>vx = 3, vy = 4\<rparr>] (RipplesManager_new 1 600)"
proof -
  have l: "(1::nat) \<le> length (points (runCalls [AddPoint 0 \<lparr>vx = 3, vy = 4\<rparr>] (RipplesManager_new 1 600)))"
    by (simp add: runCalls_def addPoint_def RipplesManager_new_def)
  show ?thesis
    using l RipplesManager_capacity[of "[AddPoint 0 \<lparr>vx = 3, vy = 4\<rparr>]" 1 600 5 "\<lparr>vx = 7, vy = 7\<rparr>"]
    by blast
qed

section \<open>Boid.applyForce\<close>

lemma magnitude_sub: "magnitude (sub q vec) = distance q vec"
  by (simp add: magnitude_def sub_def distance_def)

lemma setMagnitude_unit:
  "setMagnitude f ((1 / magnitude f) * scl) = scale (Vector2D_unit f) (scl / magnitude f)"
  by (simp add: setMagnitude_def Vector2D_unit_def scale_def magnitude_def Let_def)

lemma setMagnitude_sub:
  "setMagnitude (sub q vec) (scl / distance q vec)
     = scale (Vector2D_unit (sub q vec)) (scl / distance q vec)"
  using setMagnitude_unit[of "sub q vec" scl] by (simp add: magnitude_sub)

lemma magnitude_scale_unit:
  assumes "magnitude f \<noteq> 0"
  shows "magnitude (scale (Vector2D_unit f) k) = \<bar>k\<bar>"
proof -
  define m where "m = sqrt (vx f * vx f + vy f * vy f)"
  have mf: "magnitude f = m" by (simp add: magnitude_def m_def)
  have m0: "m \<noteq> 0" using assms mf by simp
  have mm: "m * m = vx f * vx f + vy f * vy f"
    unfolding m_def by simp
  have "(vx f / m * k) * (vx f / m * k) + (vy f / m * k) * (vy f / m * k)
        = (vx f * vx f + vy f * vy f) / (m * m) * (k * k)"
    by (simp add: add_divide_distrib algebra_simps)
  also have "\<dots> = (m * m) / (m * m) * (k * k)" by (simp only: mm)
  also have "\<dots> = k * k" using m0 by simp
  finally have e: "sqrt ((vx f / m * k) * (vx f / m * k) + (vy f / m * k) * (vy f / m * k)) = \<bar>k\<bar>"
    by simp
  have "scale (Vector2D_unit f) k = \<lparr>vx = vx f / m * k, vy = vy f / m * k\<rparr>"
    using m0 by (simp add: scale_def Vector2D_unit_def Let_def mf)
  then have "magnitude (scale (Vector2D_unit f) k)
             = sqrt ((vx f / m * k) * (vx f / m * k) + (vy f / m * k) * (vy f / m * k))"
    by (simp only: magnitude_def Vector2D.simps)
  then show ?thesis using e by simp
qed

lemma sqrt_25: "sqrt 25 = 5"
  using real_sqrt_abs[of 5] by simp

text \<open>
  C9. For a boid at the position \<open>q\<close>, with \<open>d\<close> the distance from \<open>q\<close> to the point:
  when a radius is given and \<open>d\<close> exceeds it, \<open>applyForce\<close> changes nothing; otherwise it adds to
  the acceleration the unit vector from the point to \<open>q\<close> scaled by \<open>scale / d\<close>, a vector of
  magnitude \<open>|scale / d|\<close> (for \<open>d = 0\<close> the unit vector, and with it the vector added, is the
  zero vector).
\<close>

theorem applyForce_spec:
  assumes "position b = Fin q" "acceleration b = Fin acc"
  shows "(\<forall>r. rad = Some r \<and> distance q vec > r \<longrightarrow> applyForce vec scl rad b = b) \<and>
         ((rad = None \<or> (\<exists>r. rad = Some r \<and> distance q vec \<le> r)) \<longrightarrow>
            applyForce vec scl rad b =
              b\<lparr>acceleration :=
                   Fin (add acc (scale (Vector2D_unit (sub q vec)) (scl / distance q vec)))\<rparr>) \<and>
         (distance q vec \<noteq> 0 \<longrightarrow>
            magnitude (scale (Vector2D_unit (sub q vec)) (scl / distance q vec))
              = \<bar>scl / distance q vec\<bar>)"
proof (intro conjI allI impI)
  fix r assume "rad = Some r \<and> distance q vec > r"
  then show "applyForce vec scl rad b = b"
    using assms by (simp add: applyForce_def magnitude_sub js_gt_def)
next
  assume h: "rad = None \<or> (\<exists>r. rad = Some r \<and> distance q vec \<le> r)"
  show "applyForce vec scl rad b =
      b\<lparr>acceleration := Fin (add acc (scale (Vector2D_unit (sub q vec)) (scl / distance q vec)))\<rparr>"
  proof (cases rad)
    case None
    then show ?thesis
      using assms by (simp add: applyForce_def Let_def lift2_def setMagnitude_sub magnitude_sub)
  next
    case (Some r)
    then have "distance q vec \<le> r" using h by auto
    then show ?thesis
      using assms Some
      by (simp add: applyForce_def Let_def lift2_def setMagnitude_sub magnitude_sub js_gt_def)
  qed
next
  assume "distance q vec \<noteq> 0"
  then show "magnitude (scale (Vector2D_unit (sub q vec)) (scl / distance q vec)) = \<bar>scl / distance q vec\<bar>"
    using magnitude_scale_unit[of "sub q vec"] by (simp add: magnitude_sub)
qed

theorem applyForce_spec_witness:
  "position boid0 = Fin \<lparr>vx = 3, vy = 4\<rparr> \<and> acceleration boid0 = Fin \<lparr>vx = 0, vy = 0\<rparr> \<and>
   distance \<lparr>vx = 3, vy = 4\<rparr> \<lparr>vx = 0, vy = 0\<rparr> = 5 \<and>
   applyForce \<lparr>vx = 0, vy = 0\<rparr> 10 (Some 1) boid0 = boid0 \<and>
   applyForce \<lparr>vx = 0, vy = 0\<rparr> 10 (Some 5) boid0 = boid0\<lparr>acceleration := Fin \<lparr>vx = 6 / 5, vy = 8 / 5\<rparr>\<rparr> \<and>
   applyForce \<lparr>vx = 0, vy = 0\<rparr> 10 None boid0 = boid0\<lparr>acceleration := Fin \<lparr>vx = 6 / 5, vy = 8 / 5\<rparr>\<rparr> \<and>
   magnitude (scale (Vector2D_unit (sub \<lparr>vx = 3, vy = 4\<rparr> \<lparr>vx = 0, vy = 0\<rparr>)) (10 / 5)) = 2"
proof -
  have d: "distance \<lparr>vx = 3, vy = 4\<rparr> \<lparr>vx = 0, vy = 0\<rparr> = 5"
    by (simp add: distance_def sqrt_25)
  have f: "add \<lparr>vx = 0, vy = 0\<rparr> (scale (Vector2D_unit (sub \<lparr>vx = 3, vy = 4\<rparr> \<lparr>vx = 0, vy = 0\<rparr>)) 2)
           = \<lparr>vx = 6 / 5, vy = 8 / 5\<rparr>"
    by (simp add: add_def scale_def Vector2D_unit_def sub_def magnitude_def sqrt_25)
  have p: "position boid0 = Fin \<lparr>vx = 3, vy = 4\<rparr>" and a: "acceleration boid0 = Fin \<lparr>vx = 0, vy = 0\<rparr>"
    by simp_all
  show ?thesis
    using applyForce_spec[OF p a, of "Some 1" "\<lparr>vx = 0, vy = 0\<rparr>" 10]
          applyForce_spec[OF p a, of "Some 5" "\<lparr>vx = 0, vy = 0\<rparr>" 10]
          applyForce_spec[OF p a, of None "\<lparr>vx = 0, vy = 0\<rparr>" 10]
    by (simp add: d f)
qed

section \<open>Boid.update without a time step\<close>

text \<open>
  C10. With \<open>deltaTime\<close> equal to \<open>0\<close>, \<open>NaN\<close> or left out, \<open>Boid.update\<close> returns at once:
  position, velocity and acceleration stay as they are, and the animal, whatever its
  \<open>update\<close> method does, is not updated.
\<close>

theorem Boid_update_falsy:
  "falsy dt \<Longrightarrow> Boid_update upd dt prm b = b"
  by (cases dt) (auto simp: falsy_def Boid_update_def)

theorem Boid_update_falsy_witness:
  "falsy (DNum 0) \<and> falsy DNaN \<and> falsy DUndefined \<and>
   Boid_update recordCall (DNum 0) params0 boid0 = boid0"
  using Boid_update_falsy[of "DNum 0" recordCall params0 boid0]
  by (simp add: falsy_def)


section \<open>Calls of the animal's update in a tick\<close>

lemma animal_edges [simp]: "animal (edges bnd b) = animal b"
  by (simp add: edges_def)

lemma animal_Boid_flock [simp]: "animal (Boid_flock others prm b) = animal b"
  by (simp add: Boid_flock_def Let_def)

lemma animal_applyForce [simp]: "animal (applyForce vec scl rad b) = animal b"
  by (simp add: applyForce_def Let_def)

lemma animal_applyForces [simp]:
  "animal (foldl (\<lambda>b point. applyForce point scl rad b) b pts) = animal b"
  by (induction pts arbitrary: b) auto

lemma animal_Boid_update:
  "animal (Boid_update recordCall dt prm b) =
     (if falsy dt then animal b
      else map_option (\<lambda>calls. calls @ [position (Boid_update recordCall dt prm b),
                                          position (Boid_update recordCall dt prm b)]) (animal b))"
  by (cases dt) (auto simp: Boid_update_def falsy_def Let_def recordCall_def split: option.splits)

lemma length_updateBoid [simp]: "length (updateBoid upd dt bnd prm pts boids i) = length boids"
  by (simp add: updateBoid_def Let_def)

lemma updateBoid_other: "j \<noteq> i \<Longrightarrow> updateBoid upd dt bnd prm pts boids i ! j = boids ! j"
  by (simp add: updateBoid_def Let_def)

lemma updateBoid_animal:
  assumes "i < length boids"
  shows "animal (updateBoid recordCall dt bnd prm pts boids i ! i) =
     (if falsy dt then animal (boids ! i)
      else map_option (\<lambda>calls. calls @ [position (updateBoid recordCall dt bnd prm pts boids i ! i),
                                          position (updateBoid recordCall dt bnd prm pts boids i ! i)])
             (animal (boids ! i)))"
  using assms by (simp add: updateBoid_def Let_def animal_Boid_update)

lemma foldl_updateBoid:
  assumes "distinct is" "\<forall>i\<in>set is. i < length boids"
  shows "length (foldl (updateBoid recordCall dt bnd prm pts) boids is) = length boids \<and>
         (\<forall>j. j \<notin> set is \<longrightarrow> foldl (updateBoid recordCall dt bnd prm pts) boids is ! j = boids ! j) \<and>
         (\<forall>j\<in>set is.
            animal (foldl (updateBoid recordCall dt bnd prm pts) boids is ! j) =
              (if falsy dt then animal (boids ! j)
               else map_option
                      (\<lambda>calls. calls @ [position (foldl (updateBoid recordCall dt bnd prm pts) boids is ! j),
                                         position (foldl (updateBoid recordCall dt bnd prm pts) boids is ! j)])
                      (animal (boids ! j))))"
  using assms
proof (induction "is" rule: rev_induct)
  case Nil
  then show ?case by simp
next
  case (snoc i "is")
  let ?f = "updateBoid recordCall dt bnd prm pts"
  let ?bs = "foldl ?f boids is"
  from snoc.prems have d: "distinct is" "i \<notin> set is" and lt: "\<forall>i\<in>set is. i < length boids"
    "i < length boids" by auto
  note ih = snoc.IH[OF d(1) lt(1)]
  have step: "foldl ?f boids (is @ [i]) = ?f ?bs i" by simp
  have len: "length ?bs = length boids" using ih by simp
  have same: "?bs ! i = boids ! i" using ih d(2) by simp
  show ?case
  proof (intro conjI allI ballI impI)
    show "length (foldl ?f boids (is @ [i])) = length boids" using len by simp
  next
    fix j assume "j \<notin> set (is @ [i])"
    then have "j \<noteq> i" "j \<notin> set is" by auto
    then show "foldl ?f boids (is @ [i]) ! j = boids ! j"
      using ih by (simp add: updateBoid_other)
  next
    fix j assume j: "j \<in> set (is @ [i])"
    show "animal (foldl ?f boids (is @ [i]) ! j) =
              (if falsy dt then animal (boids ! j)
               else map_option
                      (\<lambda>calls. calls @ [position (foldl ?f boids (is @ [i]) ! j),
                                         position (foldl ?f boids (is @ [i]) ! j)])
                      (animal (boids ! j)))"
    proof (cases "j = i")
      case True
      have "i < length ?bs" using len lt(2) by simp
      from updateBoid_animal[OF this, of dt bnd prm pts] show ?thesis
        unfolding step True same .
    next
      case False
      then have "j \<in> set is" using j by auto
      then show ?thesis
        unfolding step using ih False by (simp add: updateBoid_other)
    qed
  qed
qed

lemma sim0_tick:
  "Simulation_update recordCall (DNum 1) sim0 =
     sim0\<lparr>flock := [boid1\<lparr>position := Fin \<lparr>vx = 1, vy = 0\<rparr>,
                         animal := Some [Fin \<lparr>vx = 1, vy = 0\<rparr>, Fin \<lparr>vx = 1, vy = 0\<rparr>]\<rparr>]\<rparr>"
  by (simp add: Simulation_update_def updateBoid_def Let_def edges_def initBoundaries_def
        Boid_flock_def align_def cohesion_def separate_def lift2_def add_def scale_def
        getPoints_def RipplesManager_new_def Boid_update_def recordCall_def clampMag_def
        angle_def magnitude_def atan2_def Zero_def)

text \<open>
  C5 (as amended). The animal of a boid is the recorder of calls. In one call of
  \<open>Simulation.update\<close> with a \<open>deltaTime\<close> that is a number other than \<open>0\<close>, the \<open>update\<close> method of
  the animal of every boid is called exactly twice, both times with the new position of the
  boid; with \<open>deltaTime\<close> equal to \<open>0\<close>, \<open>NaN\<close> or left out it is not called.
\<close>

theorem Simulation_update_animal_calls:
  assumes "i < length (flock sim)" "animal (flock sim ! i) = Some calls"
  shows "animal (flock (Simulation_update recordCall dt sim) ! i) =
           Some (if falsy dt then calls
                 else calls @ [position (flock (Simulation_update recordCall dt sim) ! i),
                               position (flock (Simulation_update recordCall dt sim) ! i)])"
proof -
  have "distinct [0 ..< length (flock sim)]" "\<forall>i\<in>set [0 ..< length (flock sim)]. i < length (flock sim)"
    by auto
  from foldl_updateBoid[OF this, of dt "boundaries sim" "params sim" "getPoints (ripples sim)"]
  show ?thesis using assms by (auto simp: Simulation_update_def Let_def)
qed

theorem Simulation_update_animal_calls_witness:
  "0 < length (flock sim0) \<and> animal (flock sim0 ! 0) = Some [] \<and>
   animal (flock (Simulation_update recordCall (DNum 1) sim0) ! 0)
     = Some [Fin \<lparr>vx = 1, vy = 0\<rparr>, Fin \<lparr>vx = 1, vy = 0\<rparr>] \<and>
   animal (flock (Simulation_update recordCall (DNum 0) sim0) ! 0) = Some []"
proof -
  have p: "position (flock (Simulation_update recordCall (DNum 1) sim0) ! 0) = Fin \<lparr>vx = 1, vy = 0\<rparr>"
    by (simp add: sim0_tick)
  have l: "0 < length (flock sim0)" and a: "animal (flock sim0 ! 0) = Some []"
    by simp_all
  show ?thesis
    using Simulation_update_animal_calls[OF l a, of "DNum 1"]
          Simulation_update_animal_calls[OF l a, of "DNum 0"]
    by (simp add: p falsy_def)
qed

text \<open>
  C5 as stated says one call. A simulation of one boid at \<open>(0, 0)\<close> with the velocity
  \<open>(1, 0)\<close> and no ripples is ticked with \<open>deltaTime = 1\<close>: the animal's \<open>update\<close> has been
  called twice, with the position \<open>(1, 0)\<close>.
\<close>

theorem Simulation_update_calls_twice_counterexample:
  "map animal (flock sim0) = [Some []] \<and>
   map animal (flock (Simulation_update recordCall (DNum 1) sim0))
     = [Some [Fin \<lparr>vx = 1, vy = 0\<rparr>, Fin \<lparr>vx = 1, vy = 0\<rparr>]] \<and>
   length [Fin \<lparr>vx = 1, vy = 0\<rparr>, Fin \<lparr>vx = 1 :: real, vy = 0 :: real\<rparr>] \<noteq> 1"
  by (simp add: sim0_tick)

section \<open>The simulation area\<close>

text \<open>
  C6 (as amended). The area runs from \<open>left\<close> to \<open>width + left\<close> and from \<open>top\<close> to
  \<open>height + top\<close>, as \<open>Boid.edges\<close> reads the boundaries. The constructor stores exactly
  \<open>[-margin, width + margin]\<close> by \<open>[-margin, height + margin]\<close>. \<open>setBounds(width, height, margin)\<close>
  stores the left and the top edge \<open>-margin\<close> and the lower edge \<open>max(1, height) + margin\<close>.
\<close>

theorem boundaries_span:
  "left (initBoundaries w h m) = - m \<and>
   width (initBoundaries w h m) + left (initBoundaries w h m) = w + m \<and>
   top_edge (initBoundaries w h m) = - m \<and>
   height (initBoundaries w h m) + top_edge (initBoundaries w h m) = h + m \<and>
   (case setBounds w h (Some m) bnd of
      NaN \<Rightarrow> False
    | Fin bnd' \<Rightarrow>
        left bnd' = - m \<and> top_edge bnd' = - m \<and> margin bnd' = m \<and>
        height bnd' + top_edge bnd' = max 1 h + m)"
  by (simp add: initBoundaries_def setBounds_def Let_def)

text \<open>
  C6 as stated fails for \<open>setBounds(800, 0.5, 50)\<close>: the area stored runs to \<open>100\<close>, not to
  \<open>850\<close>, in \<open>x\<close> (the new width is taken from the margin) and to \<open>51\<close>, not to \<open>50.5\<close>, in
  \<open>y\<close> (a height below \<open>1\<close> is raised to \<open>1\<close>).
\<close>

theorem setBounds_counterexample:
  "setBounds 800 (1 / 2) (Some 50) (initBoundaries 800 600 50)
     = Fin \<lparr>width = 150, height = 101, left = - 50, top_edge = - 50, margin = 50\<rparr> \<and>
   width \<lparr>width = 150, height = 101, left = - 50, top_edge = - 50, margin = 50\<rparr>
     + left \<lparr>width = 150, height = 101, left = - 50, top_edge = - 50, margin = 50\<rparr> \<noteq> 800 + 50 \<and>
   height \<lparr>width = 150, height = 101, left = - 50, top_edge = - 50, margin = 50\<rparr>
     + top_edge \<lparr>width = 150, height = 101, left = - 50, top_edge = - 50, margin = 50\<rparr> \<noteq> 1 / 2 + 50"
  by (simp add: setBounds_def Let_def)

end
